theory Spec2Isabelle
  imports Complex_Main
begin

section \<open>Python and tensor values\<close>

text \<open>
  The algorithms of \<^verbatim>\<open>gpolnel.algorithms\<close> are written over untyped Python values.
  A candidate's representation is either a \<^verbatim>\<open>torch.Tensor\<close> or a plain Python list
  (a tree in prefix notation, whose nodes are function symbols and integer terminals);
  \<^verbatim>\<open>PopulationBased._initialize\<close> distinguishes the two with \<^verbatim>\<open>isinstance\<close>.
  The exceptions are those the built-in operations used by the source can raise.
\<close>

datatype error = RuntimeError | TypeError | IndexError | AttributeError

text \<open>
  A tensor is a scalar (zero dimensions) or the stacking of tensors along a new first
  dimension. Entries are integers: the source only ever tests an entry against zero.
\<close>

datatype tensor = Scalar int | Stack "tensor list"

datatype pyobj = PyTensor tensor | PyList "pyobj list" | PyInt int | PyFun string

fun entries :: "tensor \<Rightarrow> int list" where
  "entries (Scalar x) = [x]"
| "entries (Stack ts) = concat (map entries ts)"

fun shape :: "tensor \<Rightarrow> nat list" where
  "shape (Scalar x) = []"
| "shape (Stack []) = [0]"
| "shape (Stack (t # ts)) = Suc (length ts) # shape t"

definition vec :: "int list \<Rightarrow> tensor" where
  \<comment> \<open>a one-dimensional tensor, \<^verbatim>\<open>torch.tensor([x1, ..., xn])\<close>\<close>
  "vec xs = Stack (map Scalar xs)"

fun py_bool :: "pyobj \<Rightarrow> error + bool" where
  \<comment> \<open>Python truth value: a tensor with one entry is true when the entry is non-zero and
      a tensor with any other number of entries raises; a list is true when non-empty.\<close>
  "py_bool (PyTensor t) = (case entries t of [x] \<Rightarrow> Inr (x \<noteq> 0) | _ \<Rightarrow> Inl RuntimeError)"
| "py_bool (PyList xs) = Inr (xs \<noteq> [])"
| "py_bool (PyInt n) = Inr (n \<noteq> 0)"
| "py_bool (PyFun f) = Inr True"

fun py_len :: "pyobj \<Rightarrow> error + nat" where
  "py_len (PyTensor (Scalar x)) = Inl TypeError"
| "py_len (PyTensor (Stack ts)) = Inr (length ts)"
| "py_len (PyList xs) = Inr (length xs)"
| "py_len (PyInt n) = Inl TypeError"
| "py_len (PyFun f) = Inl TypeError"

fun py_iter :: "pyobj \<Rightarrow> error + pyobj list" where
  \<comment> \<open>the items a \<^verbatim>\<open>for\<close> loop or \<^verbatim>\<open>list.extend\<close> reads; a tensor yields its rows\<close>
  "py_iter (PyTensor (Scalar x)) = Inl TypeError"
| "py_iter (PyTensor (Stack ts)) = Inr (map PyTensor ts)"
| "py_iter (PyList xs) = Inr xs"
| "py_iter (PyInt n) = Inl TypeError"
| "py_iter (PyFun f) = Inl TypeError"

fun is_tensor :: "pyobj \<Rightarrow> bool" where
  \<comment> \<open>\<^verbatim>\<open>isinstance(x, torch.Tensor)\<close>\<close>
  "is_tensor (PyTensor t) = True"
| "is_tensor x = False"

fun the_tensor :: "pyobj \<Rightarrow> tensor" where
  "the_tensor (PyTensor t) = t"
| "the_tensor x = Scalar 0"

definition torch_stack :: "pyobj list \<Rightarrow> error + tensor" where
  \<comment> \<open>\<^verbatim>\<open>torch.stack\<close>: needs a non-empty list of tensors of one shape\<close>
  "torch_stack xs =
     (case xs of
        [] \<Rightarrow> Inl RuntimeError
      | x # ys \<Rightarrow>
          if \<not> list_all is_tensor xs then Inl TypeError
          else if \<not> list_all (\<lambda>y. shape (the_tensor y) = shape (the_tensor x)) ys
          then Inl RuntimeError
          else Inr (Stack (map the_tensor xs)))"

section \<open>Collaborators: solution, population, problem instance, random generators\<close>

text \<open>
  The state of the process that the algorithms and their operators share: the random
  generators of \<^verbatim>\<open>random\<close> and \<^verbatim>\<open>torch\<close>, and \<open>ambient\<close>, which stands for everything else
  an operator, being arbitrary Python, can read (a clock, a counter of its own); seeding
  does not touch it. A generator's state is determined by the seed it was last given and
  the number of values drawn since; operators that sample advance it.
\<close>

datatype rng = Rng (rng_seed: int) (rng_pos: nat)

record world =
  random_state :: rng
  torch_state :: rng
  ambient :: nat

definition random_seed :: "int \<Rightarrow> world \<Rightarrow> world" where
  \<comment> \<open>\<^verbatim>\<open>random.seed\<close> takes any integer and uses its absolute value\<close>
  "random_seed n w = w\<lparr>random_state := Rng \<bar>n\<bar> 0\<rparr>"

definition torch_seed_ok :: "int \<Rightarrow> bool" where
  \<comment> \<open>the seeds \<^verbatim>\<open>torch.manual_seed\<close> accepts: \<open>-2^63 .. 2^64 - 1\<close>\<close>
  "torch_seed_ok n = (- (2 ^ 63) \<le> n \<and> n \<le> 2 ^ 64 - 1)"

definition torch_manual_seed :: "int \<Rightarrow> world \<Rightarrow> error + world" where
  \<comment> \<open>\<^verbatim>\<open>torch.manual_seed\<close> raises \<^verbatim>\<open>RuntimeError\<close> for a seed out of range and, as its
      documentation says, remaps a negative seed to \<^verbatim>\<open>0xffff_ffff_ffff_ffff + seed\<close>\<close>
  "torch_manual_seed n w =
     (if \<not> torch_seed_ok n then Inl RuntimeError
      else Inr (w\<lparr>torch_state := Rng (if n < 0 then 2 ^ 64 - 1 + n else n) 0\<rparr>))"

text \<open>
  A solution: its representation, and the fitness and validity that evaluation
  assigns (\<open>None\<close> until then). The field \<^verbatim>\<open>repr_\<close> of the source is \<open>sol_repr\<close>.
\<close>

record solution =
  sol_repr :: pyobj
  fit :: "int option"
  valid :: "bool option"

definition Solution :: "pyobj \<Rightarrow> solution" where
  \<comment> \<open>Modelled from the spec: the constructor of \<^verbatim>\<open>gpolnel.utils.solution.Solution\<close>,
      which is not among the sources; it wraps one representation, not yet evaluated.\<close>
  "Solution r = \<lparr>sol_repr = r, fit = None, valid = None\<rparr>"

text \<open>
  The problem instance: the solution-space descriptor, the flag \<^verbatim>\<open>min_\<close> (here
  \<open>min_flag\<close>) and the scoring of one representation, deterministic for a given
  representation. Fitness values are integers here: the algorithms only compare them.
\<close>

type_synonym sspace = "(string \<times> int) list"

record problem =
  sspace :: sspace
  min_flag :: bool
  fitness :: "pyobj \<Rightarrow> int"
  feasible :: "pyobj \<Rightarrow> bool"

definition evaluate_sol :: "problem \<Rightarrow> solution \<Rightarrow> solution" where
  \<comment> \<open>Modelled from the spec: \<^verbatim>\<open>pi.evaluate_sol\<close> (the problem classes are not among the
      sources) sets the fitness and the validity of the solution in place.\<close>
  "evaluate_sol p sol =
     sol\<lparr>fit := Some (fitness p (sol_repr sol)), valid := Some (feasible p (sol_repr sol))\<rparr>"

text \<open>The keyword arguments an initializer is called with; \<open>None\<close> is an argument left out.\<close>

record init_kwargs =
  kw_sspace :: sspace
  kw_device :: "string option"
  kw_n_sols :: "int option"

type_synonym initializer = "init_kwargs \<Rightarrow> world \<Rightarrow> pyobj \<times> world"

section \<open>Outcomes of a method call\<close>

text \<open>
  A method mutates its object and the process-wide generators, and either returns or
  raises. An exception leaves the object as it was when it was raised, so both outcomes
  carry the object and the generators.
\<close>

datatype 's outcome = Return 's world | Raise error 's world

section \<open>RandomSearch\<close>

record search_algorithm =
  pi :: problem
  initializer :: initializer
  device :: string
  best_sol :: "solution option"

record random_search = search_algorithm +
  seed :: int

definition SearchAlgorithm_init :: "problem \<Rightarrow> initializer \<Rightarrow> string \<Rightarrow> search_algorithm" where
  \<comment> \<open>Modelled from the spec: \<^verbatim>\<open>SearchAlgorithm.__init__\<close> is not among the sources;
      the base class holds the problem instance, the initializer and the device, and no
      best solution yet.\<close>
  "SearchAlgorithm_init p ini dev = \<lparr>pi = p, initializer = ini, device = dev, best_sol = None\<rparr>"

definition RandomSearch_init ::
  "problem \<Rightarrow> initializer \<Rightarrow> int \<Rightarrow> string \<Rightarrow> world \<Rightarrow> error + random_search \<times> world" where
  \<comment> \<open>a constructor that raises builds no instance; the generators are then as before\<close>
  "RandomSearch_init p ini sd dev w =
     (let self = search_algorithm.extend (SearchAlgorithm_init p ini dev) (random_search.fields sd)
      in case torch_manual_seed (seed self) w of
           Inl e \<Rightarrow> Inl e
         | Inr w1 \<Rightarrow> Inr (self, random_seed (seed self) w1))"

definition get_random_sol :: "'a random_search_scheme \<Rightarrow> world \<Rightarrow> solution \<times> world" where
  "get_random_sol self w =
     (let (repr, w') = initializer self
            \<lparr>kw_sspace = sspace (pi self), kw_device = Some (device self), kw_n_sols = None\<rparr> w;
          sol = Solution repr
      in (evaluate_sol (pi self) sol, w'))"

text \<open>
  The loop \<^verbatim>\<open>while not self.best_sol.valid: self.best_sol = self._get_random_sol()\<close>.
  It has no bound, so it is a partial function: \<open>None\<close> is the run that never leaves
  the loop.
\<close>

partial_function (option) retry_until_valid ::
  "'a random_search_scheme \<Rightarrow> world \<Rightarrow> 'a random_search_scheme outcome option" where
  "retry_until_valid self w =
     (case best_sol self of
        None \<Rightarrow> Some (Raise AttributeError self w)
      | Some b \<Rightarrow>
          if valid b \<noteq> Some True
          then retry_until_valid (self\<lparr>best_sol := Some (fst (get_random_sol self w))\<rparr>)
                 (snd (get_random_sol self w))
          else Some (Return self w))"

definition initialize_at_random ::
  "'a random_search_scheme \<Rightarrow> world \<Rightarrow> 'a random_search_scheme outcome option" where
  \<comment> \<open>the \<^verbatim>\<open>else\<close> branch of \<^verbatim>\<open>RandomSearch._initialize\<close>\<close>
  "initialize_at_random self w =
     retry_until_valid (self\<lparr>best_sol := Some (fst (get_random_sol self w))\<rparr>)
       (snd (get_random_sol self w))"

definition RandomSearch_initialize ::
  "'a random_search_scheme \<Rightarrow> pyobj option \<Rightarrow> world
     \<Rightarrow> 'a random_search_scheme outcome option" where
  \<comment> \<open>\<^verbatim>\<open>if start_at:\<close> is Python's truth test: \<^verbatim>\<open>None\<close> is false, and so is any
      representation that \<open>py_bool\<close> makes false\<close>
  "RandomSearch_initialize self start_at w =
     (case start_at of
        None \<Rightarrow> initialize_at_random self w
      | Some x \<Rightarrow>
          (case py_bool x of
             Inl e \<Rightarrow> Some (Raise e self w)
           | Inr truthy \<Rightarrow>
               if truthy
               then Some (Return (self\<lparr>best_sol := Some (evaluate_sol (pi self) (Solution x))\<rparr>) w)
               else initialize_at_random self w))"

text \<open>
  The sequence of draws of the retry loop, for stating how long it runs: the generators
  after \<open>n\<close> calls of \<^verbatim>\<open>_get_random_sol\<close>, and the solution the next call returns.
\<close>

fun world_after :: "'a random_search_scheme \<Rightarrow> world \<Rightarrow> nat \<Rightarrow> world" where
  "world_after self w 0 = w"
| "world_after self w (Suc n) = snd (get_random_sol self (world_after self w n))"

definition draw :: "'a random_search_scheme \<Rightarrow> world \<Rightarrow> nat \<Rightarrow> solution" where
  "draw self w n = fst (get_random_sol self (world_after self w n))"

section \<open>PopulationBased\<close>

text \<open>
  A population: the collective representation (a Python list of representations, or
  one stacked tensor whose rows are the representations), and the fitness values and
  validity flags that evaluation assigns, in the order of the members. \<open>pop_class\<close>
  tells the container class, \<^verbatim>\<open>Population\<close> or \<^verbatim>\<open>PopulationTree\<close>.
\<close>

datatype pop_class = PopulationClass | PopulationTreeClass

record population =
  pop_class :: pop_class
  pop_repr :: pyobj
  pop_fit :: "int list option"
  pop_valid :: "bool list option"

definition Population :: "pyobj \<Rightarrow> population" where
  \<comment> \<open>Modelled from the spec: the constructor of \<^verbatim>\<open>gpolnel.utils.population.Population\<close>,
      which is not among the sources; it holds the representations, not yet evaluated.\<close>
  "Population r =
     \<lparr>pop_class = PopulationClass, pop_repr = r, pop_fit = None, pop_valid = None\<rparr>"

definition PopulationTree :: "pyobj \<Rightarrow> population" where
  \<comment> \<open>Modelled from the spec: the constructor of \<^verbatim>\<open>PopulationTree\<close>, not among the
      sources; a population of tree representations, otherwise the same contract.\<close>
  "PopulationTree r =
     \<lparr>pop_class = PopulationTreeClass, pop_repr = r, pop_fit = None, pop_valid = None\<rparr>"

definition evaluate_pop :: "problem \<Rightarrow> population \<Rightarrow> error + population" where
  \<comment> \<open>Modelled from the spec: \<^verbatim>\<open>pi.evaluate_pop\<close> (not among the sources) sets the fitness
      and validity arrays in place, in one batch that keeps the members' order.\<close>
  "evaluate_pop p P =
     (case py_iter (pop_repr P) of
        Inl e \<Rightarrow> Inl e
      | Inr members \<Rightarrow>
          Inr (P\<lparr>pop_fit := Some (map (fitness p) members),
                 pop_valid := Some (map (feasible p) members)\<rparr>))"

fun better :: "bool \<Rightarrow> int \<Rightarrow> int \<Rightarrow> bool" where
  "better m a b = (if m then a < b else b < a)"

fun best_of ::
  "bool \<Rightarrow> pyobj \<times> int \<times> bool \<Rightarrow> (pyobj \<times> int \<times> bool) list \<Rightarrow> pyobj \<times> int \<times> bool" where
  "best_of m b [] = b"
| "best_of m b (c # cs) =
     best_of m (if better m (fst (snd c)) (fst (snd b)) then c else b) cs"

definition get_best_pop :: "population \<Rightarrow> bool \<Rightarrow> error + solution" where
  \<comment> \<open>Modelled from the spec: \<^verbatim>\<open>Population.get_best_pop\<close> (not among the sources) extracts
      the best individual, the one of minimum fitness if \<^verbatim>\<open>min_\<close> else of maximum
      fitness; here the first such member.\<close>
  "get_best_pop P m =
     (case (py_iter (pop_repr P), pop_fit P, pop_valid P) of
        (Inr members, Some fs, Some vs) \<Rightarrow>
          if length fs \<noteq> length members \<or> length vs \<noteq> length members then Inl IndexError
          else
            (case zip members (zip fs vs) of
               [] \<Rightarrow> Inl RuntimeError
             | c # cs \<Rightarrow>
                 (let (r, f, v) = best_of m c cs
                  in Inr \<lparr>sol_repr = r, fit = Some f, valid = Some v\<rparr>))
      | _ \<Rightarrow> Inl TypeError)"

type_synonym mutator = "pyobj \<Rightarrow> world \<Rightarrow> pyobj \<times> world"

record population_based = random_search +
  mutator :: mutator
  pop_size :: int
  pop :: "population option"

definition PopulationBased_init ::
  "problem \<Rightarrow> initializer \<Rightarrow> mutator \<Rightarrow> int \<Rightarrow> int \<Rightarrow> string \<Rightarrow> world
     \<Rightarrow> error + population_based \<times> world" where
  "PopulationBased_init p ini mut n sd dev w =
     (case RandomSearch_init p ini sd dev w of
        Inl e \<Rightarrow> Inl e
      | Inr (base, w') \<Rightarrow>
          Inr (random_search.extend base (population_based.fields mut n None), w'))"

definition set_best_sol ::
  "'a population_based_scheme \<Rightarrow> world \<Rightarrow> 'a population_based_scheme outcome" where
  "set_best_sol self w =
     (case pop self of
        None \<Rightarrow> Raise AttributeError self w
      | Some P \<Rightarrow>
          (case get_best_pop P (min_flag (pi self)) of
             Inl e \<Rightarrow> Raise e self w
           | Inr b \<Rightarrow> Return (self\<lparr>best_sol := Some b\<rparr>) w))"

definition PopulationBased_set_pop ::
  "'a population_based_scheme \<Rightarrow> pyobj \<Rightarrow> world \<Rightarrow> 'a population_based_scheme outcome" where
  "PopulationBased_set_pop self r w =
     (let self1 = self\<lparr>pop := Some (Population r)\<rparr>
      in case evaluate_pop (pi self1) (Population r) of
           Inl e \<Rightarrow> Raise e self1 w
         | Inr P \<Rightarrow> set_best_sol (self1\<lparr>pop := Some P\<rparr>) w)"

text \<open>
  \<^verbatim>\<open>PopulationBased._initialize\<close> calls \<^verbatim>\<open>self._set_pop\<close>, which a subclass overrides;
  the method that the call reaches is the parameter \<open>set_pop\<close>.
\<close>

definition seeded ::
  "int \<Rightarrow> pyobj option \<Rightarrow> error + int \<times> pyobj list" where
  \<comment> \<open>the local \<^verbatim>\<open>pop_size, pop_repr\<close> after the \<^verbatim>\<open>if start_at is not None\<close> block\<close>
  "seeded n start_at =
     (case start_at of
        None \<Rightarrow> Inr (n, [])
      | Some sa \<Rightarrow>
          (case py_len sa of
             Inl e \<Rightarrow> Inl e
           | Inr k \<Rightarrow>
               (case py_iter sa of
                  Inl e \<Rightarrow> Inl e
                | Inr items \<Rightarrow> Inr (n - int k, [] @ items))))"

definition initialize_with ::
  "('a population_based_scheme \<Rightarrow> pyobj \<Rightarrow> world \<Rightarrow> 'a population_based_scheme outcome)
     \<Rightarrow> 'a population_based_scheme \<Rightarrow> pyobj option \<Rightarrow> world
     \<Rightarrow> 'a population_based_scheme outcome" where
  "initialize_with set_pop self start_at w =
     (case seeded (pop_size self) start_at of
        Inl e \<Rightarrow> Raise e self w
      | Inr (n, pop_repr1) \<Rightarrow>
          (let (batch, w') = initializer self
                 \<lparr>kw_sspace = sspace (pi self), kw_device = None, kw_n_sols = Some n\<rparr> w
           in case py_iter batch of
                Inl e \<Rightarrow> Raise e self w'
              | Inr items \<Rightarrow>
                  (case pop_repr1 @ items of
                     [] \<Rightarrow> Raise IndexError self w'
                   | x # xs \<Rightarrow>
                       if is_tensor x
                       then (case torch_stack (x # xs) of
                               Inl e \<Rightarrow> Raise e self w'
                             | Inr t \<Rightarrow> set_pop self (PyTensor t) w')
                       else set_pop self (PyList (x # xs)) w')))"

definition PopulationBased_initialize ::
  "'a population_based_scheme \<Rightarrow> pyobj option \<Rightarrow> world
     \<Rightarrow> 'a population_based_scheme outcome" where
  "PopulationBased_initialize = initialize_with PopulationBased_set_pop"

section \<open>GeneticAlgorithm\<close>

type_synonym selector = "population \<Rightarrow> int \<Rightarrow> world \<Rightarrow> pyobj list \<times> world"

type_synonym crossover = "pyobj \<Rightarrow> pyobj \<Rightarrow> world \<Rightarrow> pyobj list \<times> world"

record genetic_algorithm = population_based +
  selector :: selector
  p_m :: real
  crossover :: crossover
  p_c :: real
  elitism :: bool
  reproduction :: bool

definition GeneticAlgorithm_init ::
  "problem \<Rightarrow> initializer \<Rightarrow> selector \<Rightarrow> mutator \<Rightarrow> crossover \<Rightarrow> real \<Rightarrow> real \<Rightarrow> int
     \<Rightarrow> bool \<Rightarrow> bool \<Rightarrow> int \<Rightarrow> string \<Rightarrow> world \<Rightarrow> error + genetic_algorithm \<times> world" where
  "GeneticAlgorithm_init p ini sel mut cross pm pc n elit repro sd dev w =
     (case PopulationBased_init p ini mut n sd dev w of
        Inl e \<Rightarrow> Inl e
      | Inr (base, w') \<Rightarrow>
          Inr (population_based.extend base
                 (genetic_algorithm.fields sel pm cross pc elit repro), w'))"

definition GeneticAlgorithm_set_pop ::
  "'a genetic_algorithm_scheme \<Rightarrow> pyobj \<Rightarrow> world \<Rightarrow> 'a genetic_algorithm_scheme outcome" where
  "GeneticAlgorithm_set_pop self r w =
     (let self1 = self\<lparr>pop := Some (PopulationTree r)\<rparr>
      in case evaluate_pop (pi self1) (PopulationTree r) of
           Inl e \<Rightarrow> Raise e self1 w
         | Inr P \<Rightarrow> set_best_sol (self1\<lparr>pop := Some P\<rparr>) w)"

definition GeneticAlgorithm_initialize ::
  "'a genetic_algorithm_scheme \<Rightarrow> pyobj option \<Rightarrow> world
     \<Rightarrow> 'a genetic_algorithm_scheme outcome" where
  \<comment> \<open>the inherited \<^verbatim>\<open>_initialize\<close>, reaching the overriding \<^verbatim>\<open>_set_pop\<close>\<close>
  "GeneticAlgorithm_initialize = initialize_with GeneticAlgorithm_set_pop"

type_synonym 'a breeding =
  "'a genetic_algorithm_scheme \<Rightarrow> int \<Rightarrow> world \<Rightarrow> pyobj list \<times> world"

definition GeneticAlgorithm_step ::
  "'a breeding \<Rightarrow> 'a genetic_algorithm_scheme \<Rightarrow> world
     \<Rightarrow> 'a genetic_algorithm_scheme outcome" where
  \<comment> \<open>Modelled from the spec: one generation of GeneticAlgorithm, whose \<^verbatim>\<open>solve\<close> loop is
      not among the sources. Stages 1 and 2, the selection of parent pairs and their
      variation, are the parameter \<open>breed\<close>, asked for \<^verbatim>\<open>pop_size\<close> offspring minus the slot
      reserved for the elite; stage 3 carries the representation of \<^verbatim>\<open>best_sol\<close> into
      the new population unchanged; stage 4 replaces the population wholesale,
      evaluates it in one batch and recomputes \<^verbatim>\<open>best_sol\<close>, which is \<^verbatim>\<open>_set_pop\<close>.\<close>
  "GeneticAlgorithm_step breed self w =
     (let n = pop_size self - (if elitism self then 1 else 0);
          (offspring, w') = breed self n w
      in if elitism self
         then (case best_sol self of
                 None \<Rightarrow> Raise AttributeError self w'
               | Some b \<Rightarrow> GeneticAlgorithm_set_pop self (PyList (sol_repr b # offspring)) w')
         else GeneticAlgorithm_set_pop self (PyList offspring) w')"



section \<open>Notions used to state the properties\<close>

fun outcome_state :: "'s outcome \<Rightarrow> 's" where
  "outcome_state (Return s w) = s"
| "outcome_state (Raise e s w) = s"

definition scored :: "problem \<Rightarrow> pyobj list \<Rightarrow> (pyobj \<times> int \<times> bool) list" where
  "scored p members = map (\<lambda>r. (r, fitness p r, feasible p r)) members"

definition best_scored :: "problem \<Rightarrow> pyobj \<Rightarrow> pyobj list \<Rightarrow> solution" where
  "best_scored p x xs =
     (let (r, f, v) = best_of (min_flag p) (x, fitness p x, feasible p x) (scored p xs)
      in \<lparr>sol_repr = r, fit = Some f, valid = Some v\<rparr>)"

definition is_best_of :: "problem \<Rightarrow> pyobj list \<Rightarrow> solution \<Rightarrow> bool" where
  \<comment> \<open>\<open>b\<close> is a member, carries the member's own scores, and no member is fitter\<close>
  "is_best_of p members b =
     (sol_repr b \<in> set members \<and> fit b = Some (fitness p (sol_repr b)) \<and>
      valid b = Some (feasible p (sol_repr b)) \<and>
      list_all (\<lambda>r. if min_flag p then fitness p (sol_repr b) \<le> fitness p r
                     else fitness p r \<le> fitness p (sol_repr b)) members)"

definition single_kwargs :: "'a random_search_scheme \<Rightarrow> init_kwargs" where
  \<comment> \<open>the keyword arguments of the call in \<^verbatim>\<open>RandomSearch._get_random_sol\<close>\<close>
  "single_kwargs self =
     \<lparr>kw_sspace = sspace (pi self), kw_device = Some (device self), kw_n_sols = None\<rparr>"

definition batch_kwargs :: "'a population_based_scheme \<Rightarrow> pyobj option \<Rightarrow> init_kwargs" where
  \<comment> \<open>the keyword arguments of the call in \<^verbatim>\<open>PopulationBased._initialize\<close>\<close>
  "batch_kwargs self start_at =
     \<lparr>kw_sspace = sspace (pi self), kw_device = None,
      kw_n_sols = Some (pop_size self -
         (case start_at of None \<Rightarrow> 0
          | Some sa \<Rightarrow> (case py_len sa of Inl e \<Rightarrow> 0 | Inr k \<Rightarrow> int k)))\<rparr>"

definition stackable :: "pyobj list \<Rightarrow> bool" where
  \<comment> \<open>all are tensors of the shape of the first\<close>
  "stackable xs =
     (list_all is_tensor xs \<and>
      list_all (\<lambda>y. shape (the_tensor y) = shape (the_tensor (hd xs))) xs)"

definition same_rng :: "world \<Rightarrow> world \<Rightarrow> bool" where
  \<comment> \<open>both generators are in the same state\<close>
  "same_rng w w' = (random_state w = random_state w' \<and> torch_state w = torch_state w')"

fun same_outcome :: "'s outcome \<Rightarrow> 's outcome \<Rightarrow> bool" where
  \<comment> \<open>the same return or exception, the same object, the same generators\<close>
  "same_outcome (Return s w) (Return s' w') = (s = s' \<and> same_rng w w')"
| "same_outcome (Raise e s w) (Raise e' s' w') = (e = e' \<and> s = s' \<and> same_rng w w')"
| "same_outcome (Return s w) (Raise e' s' w') = False"
| "same_outcome (Raise e s w) (Return s' w') = False"




definition supplied_reprs :: "pyobj option \<Rightarrow> pyobj list" where
  \<comment> \<open>the representations that \<^verbatim>\<open>start_at\<close> supplies\<close>
  "supplied_reprs start_at =
     (case start_at of
        None \<Rightarrow> []
      | Some sa \<Rightarrow> (case py_iter sa of Inl e \<Rightarrow> [] | Inr xs \<Rightarrow> xs))"

definition drawn_reprs :: "'a population_based_scheme \<Rightarrow> pyobj option \<Rightarrow> world \<Rightarrow> pyobj list" where
  \<comment> \<open>the representations that the batched initializer call returns\<close>
  "drawn_reprs self start_at w =
     (case py_iter (fst (initializer self (batch_kwargs self start_at) w)) of
        Inl e \<Rightarrow> []
      | Inr xs \<Rightarrow> xs)"

definition builds_population :: "'a population_based_scheme \<Rightarrow> pyobj option \<Rightarrow> world \<Rightarrow> bool" where
  \<comment> \<open>\<^verbatim>\<open>start_at\<close> and the batch can be iterated, together they are not empty, and they
      can be stacked if the first is a tensor\<close>
  "builds_population self start_at w =
     ((case start_at of
         None \<Rightarrow> True
       | Some sa \<Rightarrow> (case py_iter sa of Inl e \<Rightarrow> False | Inr xs \<Rightarrow> True)) \<and>
      (case py_iter (fst (initializer self (batch_kwargs self start_at) w)) of
         Inl e \<Rightarrow> False
       | Inr xs \<Rightarrow> True) \<and>
      supplied_reprs start_at @ drawn_reprs self start_at w \<noteq> [] \<and>
      (is_tensor (hd (supplied_reprs start_at @ drawn_reprs self start_at w))
         \<longrightarrow> stackable (supplied_reprs start_at @ drawn_reprs self start_at w)))"

section \<open>Concrete instances\<close>

fun first_entry :: "pyobj \<Rightarrow> int" where
  "first_entry (PyTensor t) = (case entries t of [] \<Rightarrow> 0 | x # xs \<Rightarrow> x)"
| "first_entry (PyList (PyInt n # xs)) = n"
| "first_entry x = 0"

definition fresh_world :: world where
  \<comment> \<open>the generators before any instance is built\<close>
  "fresh_world = \<lparr>random_state = Rng 7 11, torch_state = Rng 3 5, ambient = 0\<rparr>"

definition example_problem :: problem where
  \<comment> \<open>minimise the first entry; feasible from 2 on\<close>
  "example_problem =
     \<lparr>sspace = [(''n_dims'', 1)], min_flag = True, fitness = first_entry,
      feasible = (\<lambda>r. 2 \<le> first_entry r)\<rparr>"

definition counting_initializer :: initializer where
  \<comment> \<open>the k-th value drawn from \<^verbatim>\<open>random\<close> since seeding is k\<close>
  "counting_initializer kw w =
     (let k = rng_pos (random_state w)
      in case kw_n_sols kw of
           None \<Rightarrow> (PyTensor (vec [int k]),
                     w\<lparr>random_state := Rng (rng_seed (random_state w)) (Suc k)\<rparr>)
         | Some n \<Rightarrow> (PyList (map (\<lambda>i. PyTensor (vec [int (k + i)])) [0..<nat n]),
                     w\<lparr>random_state := Rng (rng_seed (random_state w)) (k + nat n)\<rparr>))"

definition example_search :: random_search where
  "example_search =
     fst (projr (RandomSearch_init example_problem counting_initializer 0 ''cpu'' fresh_world))"

definition seeded_world :: world where
  "seeded_world =
     snd (projr (RandomSearch_init example_problem counting_initializer 0 ''cpu'' fresh_world))"

definition hopeless_search :: random_search where
  \<comment> \<open>the same search on a problem where nothing is feasible\<close>
  "hopeless_search = example_search\<lparr>pi := example_problem\<lparr>feasible := (\<lambda>r. False)\<rparr>\<rparr>"

definition scenario_problem :: problem where
  \<comment> \<open>minimise the first entry; everything is feasible\<close>
  "scenario_problem =
     \<lparr>sspace = [(''n_dims'', 1)], min_flag = True, fitness = first_entry,
      feasible = (\<lambda>r. True)\<rparr>"

definition cyclic_initializer :: initializer where
  \<comment> \<open>always the representations 1, 2, 3, 4 in order, as many as asked for\<close>
  "cyclic_initializer kw w =
     (case kw_n_sols kw of
        None \<Rightarrow> (PyTensor (vec [1]), w)
      | Some n \<Rightarrow> (PyList (map (\<lambda>i. PyTensor (vec [int (i mod 4) + 1])) [0..<nat n]), w))"

definition identity_mutator :: mutator where
  "identity_mutator r w = (r, w)"

definition scenario_search :: "int \<Rightarrow> population_based" where
  "scenario_search n =
     fst (projr (PopulationBased_init scenario_problem cyclic_initializer identity_mutator n 0
            ''cpu'' fresh_world))"

definition scenario_world :: world where
  \<comment> \<open>the generators right after the construction of \<open>scenario_search\<close>\<close>
  "scenario_world = \<lparr>random_state = Rng 0 0, torch_state = Rng 0 0, ambient = 0\<rparr>"

definition two_seeds :: pyobj where
  \<comment> \<open>a \<^verbatim>\<open>start_at\<close> of two pre-built representations\<close>
  "two_seeds = PyList [PyTensor (vec [9]), PyTensor (vec [8])]"

definition echo_initializer :: initializer where
  \<comment> \<open>one representation that records the device it was given, \<open>0\<close> for none\<close>
  "echo_initializer kw w =
     (PyList [PyList [PyInt (case kw_device kw of None \<Rightarrow> 0 | Some d \<Rightarrow> int (length d))]], w)"

definition echo_search :: population_based where
  "echo_search =
     fst (projr (PopulationBased_init scenario_problem echo_initializer identity_mutator 1 0
            ''cuda'' fresh_world))"

definition cpu_only_initializer :: initializer where
  \<comment> \<open>draws only when called with the device \<^verbatim>\<open>"cpu"\<close>\<close>
  "cpu_only_initializer kw w =
     (if kw_device kw = Some ''cpu'' then counting_initializer kw w else (PyInt 0, w))"

definition deviceless_initializer :: initializer where
  \<comment> \<open>draws only when called without a device\<close>
  "deviceless_initializer kw w =
     (case kw_device kw of None \<Rightarrow> echo_initializer kw w | Some d \<Rightarrow> (PyInt 0, w))"

definition no_selector :: selector where
  "no_selector P n w = ([], w)"

definition copy_crossover :: crossover where
  "copy_crossover a b w = ([a, b], w)"

definition tree_initializer :: initializer where
  \<comment> \<open>trees whose first node is 10, 11, 12, ... in order\<close>
  "tree_initializer kw w =
     (case kw_n_sols kw of
        None \<Rightarrow> (PyList [PyInt 10], w)
      | Some n \<Rightarrow> (PyList (map (\<lambda>i. PyList [PyInt (10 + int i)]) [0..<nat n]), w))"

definition genetic_search :: "real \<Rightarrow> real \<Rightarrow> int \<Rightarrow> genetic_algorithm" where
  "genetic_search pm pc n =
     fst (projr (GeneticAlgorithm_init scenario_problem tree_initializer no_selector identity_mutator
            copy_crossover pm pc n True False 0 ''cpu'' fresh_world))"

definition tree_seeds :: pyobj where
  \<comment> \<open>a \<^verbatim>\<open>start_at\<close> of two trees\<close>
  "tree_seeds = PyList [PyList [PyInt 7], PyList [PyInt 5]]"

definition scenario_random_search :: random_search where
  "scenario_random_search =
     fst (projr (RandomSearch_init scenario_problem cyclic_initializer 0 ''cpu'' fresh_world))"


definition evolved_search :: genetic_algorithm where
  \<comment> \<open>a GeneticAlgorithm instance with \<^verbatim>\<open>pop_size = 3\<close> after \<^verbatim>\<open>_initialize()\<close>\<close>
  "evolved_search =
     outcome_state (GeneticAlgorithm_initialize (genetic_search 0.2 0.8 3) None scenario_world)"

definition worse_breeding :: "unit breeding" where
  \<comment> \<open>every offspring has fitness 50\<close>
  "worse_breeding self n w = (replicate (nat n) (PyList [PyInt 50]), w)"



section \<open>Lemmas about the retry loop\<close>

lemma get_random_sol_best_sol [simp]:
  "get_random_sol (self\<lparr>best_sol := b\<rparr>) w = get_random_sol self w"
  by (simp add: get_random_sol_def)

lemma world_after_best_sol [simp]:
  "world_after (self\<lparr>best_sol := b\<rparr>) w n = world_after self w n"
  by (induction n) simp_all

lemma draw_best_sol [simp]: "draw (self\<lparr>best_sol := b\<rparr>) w n = draw self w n"
  by (simp add: draw_def)

lemma world_after_shift:
  "world_after self (snd (get_random_sol self w)) n = world_after self w (Suc n)"
  by (induction n) simp_all

lemma draw_shift: "draw self (snd (get_random_sol self w)) n = draw self w (Suc n)"
  by (simp add: draw_def world_after_shift del: world_after.simps(2))

lemma retry_returns_valid:
  assumes "retry_until_valid s w = Some r"
  shows "case r of Return s' w' \<Rightarrow> \<exists>b. best_sol s' = Some b \<and> valid b = Some True
                 | Raise e s' w' \<Rightarrow> True"
  by (rule retry_until_valid.raw_induct
        [where P = "\<lambda>s w r. case r of
             Return s' w' \<Rightarrow> \<exists>b. best_sol s' = Some b \<and> valid b = Some True
           | Raise e s' w' \<Rightarrow> True", OF _ assms])
     (auto split: option.splits if_splits)

lemma retry_finds_first_valid:
  "(\<forall>i<n. valid (draw self w i) \<noteq> Some True) \<Longrightarrow> valid (draw self w n) = Some True \<Longrightarrow>
   retry_until_valid (self\<lparr>best_sol := Some (draw self w 0)\<rparr>) (world_after self w (Suc 0))
     = Some (Return (self\<lparr>best_sol := Some (draw self w n)\<rparr>) (world_after self w (Suc n)))"
proof (induction n arbitrary: w)
  case 0
  then show ?case
    by (subst retry_until_valid.simps) simp
next
  case (Suc n)
  let ?w1 = "snd (get_random_sol self w)"
  have inv: "valid (draw self w 0) \<noteq> Some True" using Suc.prems(1) by blast
  have a: "\<forall>i<n. valid (draw self ?w1 i) \<noteq> Some True"
    using Suc.prems(1) by (simp add: draw_shift)
  have b: "valid (draw self ?w1 n) = Some True"
    using Suc.prems(2) by (simp add: draw_shift)
  have "retry_until_valid (self\<lparr>best_sol := Some (draw self w 0)\<rparr>) (world_after self w (Suc 0))
      = retry_until_valid (self\<lparr>best_sol := Some (draw self ?w1 0)\<rparr>) (world_after self ?w1 (Suc 0))"
    using inv by (subst retry_until_valid.simps) (simp add: draw_def)
  also have "\<dots> = Some (Return (self\<lparr>best_sol := Some (draw self ?w1 n)\<rparr>) (world_after self ?w1 (Suc n)))"
    by (rule Suc.IH [OF a b])
  finally show ?case
    by (simp add: draw_shift world_after_shift del: world_after.simps(2))
qed

lemma retry_Some_has_valid:
  assumes "retry_until_valid s w = Some r"
  shows "\<forall>b. best_sol s = Some b \<longrightarrow>
           valid b = Some True \<or> (\<exists>n. valid (draw s w n) = Some True)"
proof (rule retry_until_valid.raw_induct
        [where P = "\<lambda>s w r. \<forall>b. best_sol s = Some b \<longrightarrow>
           valid b = Some True \<or> (\<exists>n. valid (draw s w n) = Some True)", OF _ assms])
  fix f :: "'a random_search_scheme \<Rightarrow> world \<Rightarrow> 'a random_search_scheme outcome option"
  fix s w r
  assume IH: "\<And>s w r. f s w = Some r \<Longrightarrow> \<forall>b. best_sol s = Some b \<longrightarrow>
           valid b = Some True \<or> (\<exists>n. valid (draw s w n) = Some True)"
  assume eq: "(case best_sol s of
        None \<Rightarrow> Some (Raise AttributeError s w)
      | Some b \<Rightarrow>
          if valid b \<noteq> Some True
          then f (s\<lparr>best_sol := Some (fst (get_random_sol s w))\<rparr>)
                 (snd (get_random_sol s w))
          else Some (Return s w)) = Some r"
  show "\<forall>b. best_sol s = Some b \<longrightarrow>
           valid b = Some True \<or> (\<exists>n. valid (draw s w n) = Some True)"
  proof (intro allI impI)
    fix b assume b: "best_sol s = Some b"
    show "valid b = Some True \<or> (\<exists>n. valid (draw s w n) = Some True)"
    proof (cases "valid b = Some True")
      case True
      then show ?thesis by simp
    next
      case False
      let ?d = "fst (get_random_sol s w)"
      let ?w1 = "snd (get_random_sol s w)"
      from eq b False have "f (s\<lparr>best_sol := Some ?d\<rparr>) ?w1 = Some r"
        by simp
      from IH [OF this]
      have "valid ?d = Some True \<or> (\<exists>n. valid (draw s ?w1 n) = Some True)"
        by simp
      then show ?thesis
      proof
        assume "valid ?d = Some True"
        then have "valid (draw s w 0) = Some True" by (simp add: draw_def)
        then show ?thesis by blast
      next
        assume "\<exists>n. valid (draw s ?w1 n) = Some True"
        then obtain n where "valid (draw s w (Suc n)) = Some True"
          by (auto simp: draw_shift)
        then show ?thesis by blast
      qed
    qed
  qed
qed

lemma initialize_at_random_Some_has_valid:
  assumes "initialize_at_random self w = Some r"
  shows "\<exists>n. valid (draw self w n) = Some True"
proof -
  let ?d = "fst (get_random_sol self w)"
  let ?w1 = "snd (get_random_sol self w)"
  from assms have "retry_until_valid (self\<lparr>best_sol := Some ?d\<rparr>) ?w1 = Some r"
    by (simp add: initialize_at_random_def)
  from retry_Some_has_valid [OF this]
  have "valid ?d = Some True \<or> (\<exists>n. valid (draw self ?w1 n) = Some True)"
    by simp
  then show ?thesis
  proof
    assume "valid ?d = Some True"
    then have "valid (draw self w 0) = Some True" by (simp add: draw_def)
    then show ?thesis by blast
  next
    assume "\<exists>n. valid (draw self ?w1 n) = Some True"
    then obtain n where "valid (draw self w (Suc n)) = Some True"
      by (auto simp: draw_shift)
    then show ?thesis by blast
  qed
qed

lemma initialize_at_random_first_valid:
  assumes "\<forall>i<n. valid (draw self w i) \<noteq> Some True" and "valid (draw self w n) = Some True"
  shows "initialize_at_random self w =
     Some (Return (self\<lparr>best_sol := Some (draw self w n)\<rparr>) (world_after self w (Suc n)))"
  using retry_finds_first_valid [OF assms]
  by (simp add: initialize_at_random_def draw_def)

lemma retry_frame:
  assumes "retry_until_valid s w = Some r"
  shows "\<exists>b. outcome_state r = s\<lparr>best_sol := b\<rparr>"
proof (rule retry_until_valid.raw_induct
        [where P = "\<lambda>s w r. \<exists>b. outcome_state r = s\<lparr>best_sol := b\<rparr>", OF _ assms])
  fix f :: "'a random_search_scheme \<Rightarrow> world \<Rightarrow> 'a random_search_scheme outcome option"
  fix s w r
  assume IH: "\<And>s w r. f s w = Some r \<Longrightarrow> \<exists>b. outcome_state r = s\<lparr>best_sol := b\<rparr>"
  assume eq: "(case best_sol s of
        None \<Rightarrow> Some (Raise AttributeError s w)
      | Some b \<Rightarrow>
          if valid b \<noteq> Some True
          then f (s\<lparr>best_sol := Some (fst (get_random_sol s w))\<rparr>)
                 (snd (get_random_sol s w))
          else Some (Return s w)) = Some r"
  have self: "s = s\<lparr>best_sol := best_sol s\<rparr>" by simp
  show "\<exists>b. outcome_state r = s\<lparr>best_sol := b\<rparr>"
  proof (cases "best_sol s")
    case None
    with eq have "outcome_state r = s" by auto
    with self show ?thesis by metis
  next
    case (Some b)
    show ?thesis
    proof (cases "valid b = Some True")
      case True
      with eq Some have "outcome_state r = s" by auto
      with self show ?thesis by metis
    next
      case False
      with eq Some have "f (s\<lparr>best_sol := Some (fst (get_random_sol s w))\<rparr>)
                 (snd (get_random_sol s w)) = Some r" by simp
      from IH [OF this] show ?thesis by auto
    qed
  qed
qed

lemma draw_valid:
  "valid (draw self w n) = Some (feasible (pi self) (sol_repr (draw self w n)))"
  by (simp add: draw_def get_random_sol_def evaluate_sol_def Solution_def split: prod.splits)


section \<open>Lemmas about populations\<close>

lemma py_iter_len: "py_iter x = Inr xs \<Longrightarrow> py_len x = Inr (length xs)"
  by (cases x rule: py_iter.cases) auto

lemma best_of_mem: "best_of m b cs \<in> set (b # cs)"
proof (induction cs arbitrary: b)
  case Nil
  then show ?case by simp
next
  case (Cons a cs)
  let ?b' = "if better m (fst (snd a)) (fst (snd b)) then a else b"
  have "best_of m ?b' cs \<in> set (?b' # cs)" by (rule Cons.IH)
  then show ?case by (auto simp del: better.simps split: if_splits)
qed

lemma best_of_min:
  "\<forall>c\<in>set (b # cs). fst (snd (best_of True b cs)) \<le> fst (snd c)"
proof (induction cs arbitrary: b)
  case Nil
  then show ?case by simp
next
  case (Cons a cs)
  let ?b' = "if fst (snd a) < fst (snd b) then a else b"
  have IH: "\<forall>c\<in>set (?b' # cs). fst (snd (best_of True ?b' cs)) \<le> fst (snd c)"
    by (rule Cons.IH)
  then have "fst (snd (best_of True ?b' cs)) \<le> fst (snd ?b')" by simp
  moreover have "fst (snd ?b') \<le> fst (snd a)" "fst (snd ?b') \<le> fst (snd b)" by auto
  ultimately have "fst (snd (best_of True ?b' cs)) \<le> fst (snd a)"
    "fst (snd (best_of True ?b' cs)) \<le> fst (snd b)" by linarith+
  with IH show ?case by simp
qed

lemma best_of_max:
  "\<forall>c\<in>set (b # cs). fst (snd c) \<le> fst (snd (best_of False b cs))"
proof (induction cs arbitrary: b)
  case Nil
  then show ?case by simp
next
  case (Cons a cs)
  let ?b' = "if fst (snd b) < fst (snd a) then a else b"
  have IH: "\<forall>c\<in>set (?b' # cs). fst (snd c) \<le> fst (snd (best_of False ?b' cs))"
    by (rule Cons.IH)
  then have "fst (snd ?b') \<le> fst (snd (best_of False ?b' cs))" by simp
  moreover have "fst (snd a) \<le> fst (snd ?b')" "fst (snd b) \<le> fst (snd ?b')" by auto
  ultimately have "fst (snd a) \<le> fst (snd (best_of False ?b' cs))"
    "fst (snd b) \<le> fst (snd (best_of False ?b' cs))" by linarith+
  with IH show ?case by simp
qed

lemma zip_scored:
  "zip members (zip (map (fitness p) members) (map (feasible p) members)) = scored p members"
  by (induction members) (simp_all add: scored_def)

lemma get_best_pop_evaluated:
  assumes "py_iter (pop_repr P) = Inr (x # xs)"
    and "pop_fit P = Some (map (fitness p) (x # xs))"
    and "pop_valid P = Some (map (feasible p) (x # xs))"
  shows "get_best_pop P m = Inr
     \<lparr>sol_repr = fst (best_of m (x, fitness p x, feasible p x) (scored p xs)),
      fit = Some (fst (snd (best_of m (x, fitness p x, feasible p x) (scored p xs)))),
      valid = Some (snd (snd (best_of m (x, fitness p x, feasible p x) (scored p xs))))\<rparr>"
  using assms zip_scored [of xs p]
  by (simp add: get_best_pop_def split: prod.splits)


lemma get_best_pop_scored:
  assumes "py_iter (pop_repr P) = Inr (x # xs)"
    and "pop_fit P = Some (map (fitness p) (x # xs))"
    and "pop_valid P = Some (map (feasible p) (x # xs))"
  shows "get_best_pop P (min_flag p) = Inr (best_scored p x xs)"
  using assms zip_scored [of xs p]
  by (simp add: get_best_pop_def best_scored_def split: prod.splits)

lemma scored_mem: "c \<in> set (scored p xs) \<Longrightarrow> \<exists>r\<in>set xs. c = (r, fitness p r, feasible p r)"
  by (auto simp: scored_def)

lemma best_scored_is_best: "is_best_of p (x # xs) (best_scored p x xs)"
proof -
  let ?c = "(x, fitness p x, feasible p x)"
  let ?b = "best_of (min_flag p) ?c (scored p xs)"
  have mem: "?b \<in> set (?c # scored p xs)" by (rule best_of_mem)
  have sc: "?c # scored p xs = scored p (x # xs)" by (simp add: scored_def)
  from mem obtain r where r: "r \<in> set (x # xs)" "?b = (r, fitness p r, feasible p r)"
    unfolding sc using scored_mem by blast
  have b: "best_scored p x xs = \<lparr>sol_repr = r, fit = Some (fitness p r), valid = Some (feasible p r)\<rparr>"
    by (simp add: best_scored_def r(2))
  have ord: "if min_flag p then fitness p r \<le> fitness p y else fitness p y \<le> fitness p r"
    if "y \<in> set (x # xs)" for y
  proof -
    from that have y: "(y, fitness p y, feasible p y) \<in> set (?c # scored p xs)"
      unfolding sc by (auto simp: scored_def)
    show ?thesis
    proof (cases "min_flag p")
      case True
      with best_of_min [of ?c "scored p xs"] y r(2) show ?thesis by fastforce
    next
      case False
      with best_of_max [of ?c "scored p xs"] y r(2) show ?thesis by fastforce
    qed
  qed
  show ?thesis
    unfolding is_best_of_def b using r(1) ord by (simp add: list_all_iff)
qed

lemma set_best_sol_evaluated:
  assumes "pop self = Some P" and "py_iter (pop_repr P) = Inr (x # xs)"
    and "pop_fit P = Some (map (fitness (pi self)) (x # xs))"
    and "pop_valid P = Some (map (feasible (pi self)) (x # xs))"
  shows "set_best_sol self w = Return (self\<lparr>best_sol := Some (best_scored (pi self) x xs)\<rparr>) w"
  using assms get_best_pop_scored [of P x xs "pi self"]
  by (simp add: set_best_sol_def)

lemma PopulationBased_set_pop_members:
  assumes "py_iter r = Inr (x # xs)"
  shows "PopulationBased_set_pop self r w =
     Return (self\<lparr>pop := Some ((Population r)\<lparr>pop_fit := Some (map (fitness (pi self)) (x # xs)),
                                    pop_valid := Some (map (feasible (pi self)) (x # xs))\<rparr>),
                 best_sol := Some (best_scored (pi self) x xs)\<rparr>) w"
proof -
  have ev: "evaluate_pop (pi self) (Population r) =
      Inr ((Population r)\<lparr>pop_fit := Some (map (fitness (pi self)) (x # xs)),
                           pop_valid := Some (map (feasible (pi self)) (x # xs))\<rparr>)"
    using assms by (simp add: evaluate_pop_def Population_def)
  let ?P = "(Population r)\<lparr>pop_fit := Some (map (fitness (pi self)) (x # xs)),
                           pop_valid := Some (map (feasible (pi self)) (x # xs))\<rparr>"
  have sb: "set_best_sol (self\<lparr>pop := Some ?P\<rparr>) w =
      Return (self\<lparr>pop := Some ?P, best_sol := Some (best_scored (pi self) x xs)\<rparr>) w"
    using set_best_sol_evaluated [of "self\<lparr>pop := Some ?P\<rparr>" ?P x xs w] assms
    by (simp add: Population_def)
  show ?thesis
    unfolding PopulationBased_set_pop_def Let_def using ev sb by simp
qed

lemma GeneticAlgorithm_set_pop_members:
  assumes "py_iter r = Inr (x # xs)"
  shows "GeneticAlgorithm_set_pop self r w =
     Return (self\<lparr>pop := Some ((PopulationTree r)\<lparr>pop_fit := Some (map (fitness (pi self)) (x # xs)),
                                    pop_valid := Some (map (feasible (pi self)) (x # xs))\<rparr>),
                 best_sol := Some (best_scored (pi self) x xs)\<rparr>) w"
proof -
  have ev: "evaluate_pop (pi self) (PopulationTree r) =
      Inr ((PopulationTree r)\<lparr>pop_fit := Some (map (fitness (pi self)) (x # xs)),
                           pop_valid := Some (map (feasible (pi self)) (x # xs))\<rparr>)"
    using assms by (simp add: evaluate_pop_def PopulationTree_def)
  let ?P = "(PopulationTree r)\<lparr>pop_fit := Some (map (fitness (pi self)) (x # xs)),
                           pop_valid := Some (map (feasible (pi self)) (x # xs))\<rparr>"
  have sb: "set_best_sol (self\<lparr>pop := Some ?P\<rparr>) w =
      Return (self\<lparr>pop := Some ?P, best_sol := Some (best_scored (pi self) x xs)\<rparr>) w"
    using set_best_sol_evaluated [of "self\<lparr>pop := Some ?P\<rparr>" ?P x xs w] assms
    by (simp add: PopulationTree_def)
  show ?thesis
    unfolding GeneticAlgorithm_set_pop_def Let_def using ev sb by simp
qed

lemma torch_stack_Inr:
  "torch_stack xs = Inr t \<Longrightarrow> xs \<noteq> [] \<and> list_all is_tensor xs \<and> t = Stack (map the_tensor xs)"
  by (auto simp: torch_stack_def split: list.splits if_splits)

lemma map_PyTensor_the_tensor: "list_all is_tensor xs \<Longrightarrow> map (PyTensor \<circ> the_tensor) xs = xs"
proof (induction xs)
  case Nil
  then show ?case by simp
next
  case (Cons a xs)
  then show ?case by (cases a) simp_all
qed

lemma torch_stack_stackable: "torch_stack xs = Inr t \<Longrightarrow> stackable xs"
  by (auto simp: torch_stack_def stackable_def split: list.splits if_splits)

lemma torch_stack_iter:
  "torch_stack xs = Inr t \<Longrightarrow> py_iter (PyTensor t) = Inr xs"
  using torch_stack_Inr [of xs t] by (auto simp: map_PyTensor_the_tensor)

lemma seeded_Inr:
  "seeded n start_at = Inr (m, seeds) \<Longrightarrow>
     m = n - (case start_at of None \<Rightarrow> 0
          | Some sa \<Rightarrow> (case py_len sa of Inl e \<Rightarrow> 0 | Inr k \<Rightarrow> int k)) \<and>
     (case start_at of None \<Rightarrow> seeds = [] | Some sa \<Rightarrow> py_iter sa = Inr seeds)"
  by (auto simp: seeded_def split: option.splits sum.splits)

lemma initialize_with_Return:
  assumes "initialize_with set_pop self start_at w = Return self' w'"
  shows "\<exists>r seeds drawn.
      (case start_at of None \<Rightarrow> seeds = [] | Some sa \<Rightarrow> py_iter sa = Inr seeds) \<and>
      py_iter (fst (initializer self (batch_kwargs self start_at) w)) = Inr drawn \<and>
      py_iter r = Inr (seeds @ drawn) \<and> seeds @ drawn \<noteq> [] \<and>
      (is_tensor (hd (seeds @ drawn)) \<longrightarrow> stackable (seeds @ drawn)) \<and>
      set_pop self r (snd (initializer self (batch_kwargs self start_at) w)) = Return self' w'"
proof (cases "seeded (pop_size self) start_at")
  case (Inl e)
  with assms show ?thesis by (simp add: initialize_with_def)
next
  case (Inr a)
  then obtain m seeds where s: "seeded (pop_size self) start_at = Inr (m, seeds)"
    by (cases a) auto
  note S = seeded_Inr [OF s]
  have kw: "\<lparr>kw_sspace = sspace (pi self), kw_device = None, kw_n_sols = Some m\<rparr>
      = batch_kwargs self start_at"
    using S by (simp add: batch_kwargs_def)
  let ?res = "initializer self (batch_kwargs self start_at) w"
  from assms s kw obtain drawn where d: "py_iter (fst ?res) = Inr drawn"
    by (auto simp: initialize_with_def split: prod.splits sum.splits)
  show ?thesis
  proof (cases "seeds @ drawn")
    case Nil
    with assms s kw d show ?thesis
      by (auto simp: initialize_with_def split: prod.splits)
  next
    case (Cons x xs)
    show ?thesis
    proof (cases "is_tensor x")
      case True
      with assms s kw d Cons obtain t where t: "torch_stack (x # xs) = Inr t"
        and r: "set_pop self (PyTensor t) (snd ?res) = Return self' w'"
        by (auto simp: initialize_with_def split: prod.splits sum.splits)
      from torch_stack_iter [OF t] have "py_iter (PyTensor t) = Inr (seeds @ drawn)"
        using Cons by simp
      moreover from torch_stack_stackable [OF t] have "stackable (seeds @ drawn)"
        using Cons by simp
      ultimately show ?thesis
        using S d r Cons
        by (intro exI [of _ "PyTensor t"] exI [of _ seeds] exI [of _ drawn]) simp
    next
      case False
      with assms s kw d Cons have r: "set_pop self (PyList (x # xs)) (snd ?res) = Return self' w'"
        by (auto simp: initialize_with_def split: prod.splits)
      with S d Cons False show ?thesis
        by (intro exI [of _ "PyList (x # xs)"] exI [of _ seeds] exI [of _ drawn]) simp
    qed
  qed
qed

lemma initialize_with_forward:
  assumes "case start_at of None \<Rightarrow> seeds = [] | Some sa \<Rightarrow> py_iter sa = Inr seeds"
    and "initializer self (batch_kwargs self start_at) w = (batch, w')"
    and "py_iter batch = Inr drawn"
    and "seeds @ drawn = x # xs"
    and "is_tensor x \<longrightarrow> stackable (x # xs)"
  shows "initialize_with set_pop self start_at w =
     set_pop self (if is_tensor x then PyTensor (Stack (map the_tensor (x # xs)))
                   else PyList (x # xs)) w'"
proof -
  let ?k = "case start_at of None \<Rightarrow> 0
          | Some sa \<Rightarrow> (case py_len sa of Inl e \<Rightarrow> 0 | Inr k \<Rightarrow> int k)"
  have s: "seeded (pop_size self) start_at = Inr (pop_size self - ?k, seeds)"
    using assms(1) by (auto simp: seeded_def py_iter_len split: option.splits)
  have kw: "\<lparr>kw_sspace = sspace (pi self), kw_device = None,
             kw_n_sols = Some (pop_size self - ?k)\<rparr> = batch_kwargs self start_at"
    by (simp add: batch_kwargs_def)
  have st: "torch_stack (x # xs) = Inr (Stack (map the_tensor (x # xs)))" if "is_tensor x"
    using that assms(5) by (simp add: torch_stack_def stackable_def)
  show ?thesis
    unfolding initialize_with_def s
    by (simp add: kw assms(2,3,4) st)
qed

lemma set_best_sol_frame: "\<exists>b. outcome_state (set_best_sol self w) = self\<lparr>best_sol := b\<rparr>"
proof -
  have self: "self = self\<lparr>best_sol := best_sol self\<rparr>" by simp
  show ?thesis
  proof (cases "set_best_sol self w")
    case (Return s' w')
    then show ?thesis by (auto simp: set_best_sol_def split: option.splits sum.splits)
  next
    case (Raise e s' w')
    then have "s' = self" by (auto simp: set_best_sol_def split: option.splits sum.splits)
    with Raise self show ?thesis by (metis outcome_state.simps(2))
  qed
qed

lemma PopulationBased_set_pop_frame:
  "\<exists>P b. outcome_state (PopulationBased_set_pop self r w) = self\<lparr>pop := P, best_sol := b\<rparr>"
proof (cases "evaluate_pop (pi self) (Population r)")
  case (Inl e)
  have "self\<lparr>pop := Some (Population r)\<rparr>
      = self\<lparr>pop := Some (Population r), best_sol := best_sol self\<rparr>" by simp
  with Inl show ?thesis
    unfolding PopulationBased_set_pop_def Let_def by (simp, metis)
next
  case (Inr P)
  from set_best_sol_frame [of "self\<lparr>pop := Some P\<rparr>" w] Inr show ?thesis
    unfolding PopulationBased_set_pop_def Let_def by (simp, metis)
qed

lemma GeneticAlgorithm_set_pop_frame:
  "\<exists>P b. outcome_state (GeneticAlgorithm_set_pop self r w) = self\<lparr>pop := P, best_sol := b\<rparr>"
proof (cases "evaluate_pop (pi self) (PopulationTree r)")
  case (Inl e)
  have "self\<lparr>pop := Some (PopulationTree r)\<rparr>
      = self\<lparr>pop := Some (PopulationTree r), best_sol := best_sol self\<rparr>" by simp
  with Inl show ?thesis
    unfolding GeneticAlgorithm_set_pop_def Let_def by (simp, metis)
next
  case (Inr P)
  from set_best_sol_frame [of "self\<lparr>pop := Some P\<rparr>" w] Inr show ?thesis
    unfolding GeneticAlgorithm_set_pop_def Let_def by (simp, metis)
qed

lemma initialize_with_frame:
  assumes "\<And>r w. \<exists>P b. outcome_state (set_pop self r w) = self\<lparr>pop := P, best_sol := b\<rparr>"
  shows "\<exists>P b. outcome_state (initialize_with set_pop self start_at w)
           = self\<lparr>pop := P, best_sol := b\<rparr>"
proof -
  have self: "self = self\<lparr>pop := pop self, best_sol := best_sol self\<rparr>" by simp
  have "initialize_with set_pop self start_at w \<in>
      {Raise e self w1 | e w1. True} \<union> {set_pop self r w1 | r w1. True}"
    unfolding initialize_with_def
    by (auto split: sum.splits prod.splits list.splits)
  then consider e w1 where "initialize_with set_pop self start_at w = Raise e self w1"
    | r w1 where "initialize_with set_pop self start_at w = set_pop self r w1"
    by blast
  then show ?thesis
  proof cases
    case 1
    with self show ?thesis by (metis outcome_state.simps(2))
  next
    case 2
    with assms show ?thesis by simp
  qed
qed

lemma set_best_sol_initializer:
  "set_best_sol (s\<lparr>initializer := i\<rparr>) w
     = map_outcome (\<lambda>s. s\<lparr>initializer := i\<rparr>) (set_best_sol s w)"
  by (simp add: set_best_sol_def split: option.splits sum.splits)

lemma PopulationBased_set_pop_initializer:
  "PopulationBased_set_pop (s\<lparr>initializer := i\<rparr>) r w
     = map_outcome (\<lambda>s. s\<lparr>initializer := i\<rparr>) (PopulationBased_set_pop s r w)"
proof -
  have upd: "s\<lparr>initializer := i, pop := P\<rparr> = s\<lparr>pop := P\<rparr>\<lparr>initializer := i\<rparr>" for P
    by simp
  show ?thesis
    unfolding PopulationBased_set_pop_def Let_def
    by (simp add: upd set_best_sol_initializer split: sum.splits del: surjective)
qed

lemma initialize_with_initializer:
  assumes "i (batch_kwargs s start_at) w = initializer s (batch_kwargs s start_at) w"
    and "\<And>r u. set_pop (s\<lparr>initializer := i\<rparr>) r u
           = map_outcome (\<lambda>s. s\<lparr>initializer := i\<rparr>) (set_pop s r u)"
  shows "initialize_with set_pop (s\<lparr>initializer := i\<rparr>) start_at w
     = map_outcome (\<lambda>s. s\<lparr>initializer := i\<rparr>) (initialize_with set_pop s start_at w)"
proof (cases "seeded (pop_size s) start_at")
  case (Inl e)
  then show ?thesis by (simp add: initialize_with_def)
next
  case (Inr a)
  then obtain m seeds where sd: "seeded (pop_size s) start_at = Inr (m, seeds)"
    by (cases a) auto
  have kw: "\<lparr>kw_sspace = sspace (pi s), kw_device = None, kw_n_sols = Some m\<rparr>
      = batch_kwargs s start_at"
    using seeded_Inr [OF sd] by (simp add: batch_kwargs_def)
  show ?thesis
    unfolding initialize_with_def
    by (simp add: sd kw assms split: prod.splits sum.splits list.splits)
qed

lemma is_best_of_member:
  assumes "is_best_of p members b" and "r \<in> set members"
  shows "if min_flag p then fitness p (sol_repr b) \<le> fitness p r
         else fitness p r \<le> fitness p (sol_repr b)"
  using assms by (simp add: is_best_of_def list_all_iff)

lemma elitist_step:
  assumes "elitism self" and "best_sol self = Some b"
  shows "GeneticAlgorithm_step breed self w =
     Return (self\<lparr>pop := Some ((PopulationTree
                   (PyList (sol_repr b # fst (breed self (pop_size self - 1) w))))
                 \<lparr>pop_fit := Some (map (fitness (pi self))
                      (sol_repr b # fst (breed self (pop_size self - 1) w))),
                  pop_valid := Some (map (feasible (pi self))
                      (sol_repr b # fst (breed self (pop_size self - 1) w)))\<rparr>),
                 best_sol := Some (best_scored (pi self) (sol_repr b)
                      (fst (breed self (pop_size self - 1) w)))\<rparr>)
       (snd (breed self (pop_size self - 1) w))"
proof -
  obtain offs u where br: "breed self (pop_size self - 1) w = (offs, u)"
    by (cases "breed self (pop_size self - 1) w") auto
  have "GeneticAlgorithm_step breed self w
      = GeneticAlgorithm_set_pop self (PyList (sol_repr b # offs)) u"
    using assms br by (simp add: GeneticAlgorithm_step_def)
  also have "\<dots> = Return (self\<lparr>pop := Some ((PopulationTree (PyList (sol_repr b # offs)))
                 \<lparr>pop_fit := Some (map (fitness (pi self)) (sol_repr b # offs)),
                  pop_valid := Some (map (feasible (pi self)) (sol_repr b # offs))\<rparr>),
                 best_sol := Some (best_scored (pi self) (sol_repr b) offs)\<rparr>) u"
    by (rule GeneticAlgorithm_set_pop_members) simp
  finally show ?thesis by (simp add: br)
qed

lemma builds_population_parts:
  assumes "builds_population self start_at w"
  shows "case start_at of None \<Rightarrow> supplied_reprs start_at = []
         | Some sa \<Rightarrow> py_iter sa = Inr (supplied_reprs start_at)"
    and "py_iter (fst (initializer self (batch_kwargs self start_at) w))
           = Inr (drawn_reprs self start_at w)"
    and "supplied_reprs start_at @ drawn_reprs self start_at w \<noteq> []"
    and "is_tensor (hd (supplied_reprs start_at @ drawn_reprs self start_at w))
           \<longrightarrow> stackable (supplied_reprs start_at @ drawn_reprs self start_at w)"
  using assms
  by (auto simp: builds_population_def supplied_reprs_def drawn_reprs_def
      split: option.splits sum.splits)

lemma initialize_with_builds:
  assumes "builds_population self start_at w"
  shows "\<exists>r x xs. supplied_reprs start_at @ drawn_reprs self start_at w = x # xs \<and>
           py_iter r = Inr (x # xs) \<and>
           initialize_with set_pop self start_at w
             = set_pop self r (snd (initializer self (batch_kwargs self start_at) w))"
proof -
  note B = builds_population_parts [OF assms]
  from B(3) obtain x xs
    where c: "supplied_reprs start_at @ drawn_reprs self start_at w = x # xs"
    by (cases "supplied_reprs start_at @ drawn_reprs self start_at w") auto
  have st: "is_tensor x \<longrightarrow> stackable (x # xs)"
    using B(4) c by simp
  let ?r = "if is_tensor x then PyTensor (Stack (map the_tensor (x # xs))) else PyList (x # xs)"
  have it: "py_iter ?r = Inr (x # xs)"
    using st map_PyTensor_the_tensor [of "x # xs"] by (simp add: stackable_def)
  have "initialize_with set_pop self start_at w
      = set_pop self ?r (snd (initializer self (batch_kwargs self start_at) w))"
    by (rule initialize_with_forward [OF B(1) _ B(2) c st]) simp
  with c it show ?thesis by blast
qed

lemma initialize_with_Return_builds:
  assumes "initialize_with set_pop self start_at w = Return self' w'"
  shows "builds_population self start_at w"
proof -
  from initialize_with_Return [OF assms]
  obtain seeds drawn where
    a: "case start_at of None \<Rightarrow> seeds = [] | Some sa \<Rightarrow> py_iter sa = Inr seeds"
    and b: "py_iter (fst (initializer self (batch_kwargs self start_at) w)) = Inr drawn"
    and c: "seeds @ drawn \<noteq> []"
    and d: "is_tensor (hd (seeds @ drawn)) \<longrightarrow> stackable (seeds @ drawn)"
    by blast
  from a have s: "supplied_reprs start_at = seeds"
    by (auto simp: supplied_reprs_def split: option.splits)
  from b have dr: "drawn_reprs self start_at w = drawn"
    by (simp add: drawn_reprs_def)
  show ?thesis
    using a b c d unfolding builds_population_def s dr
    by (auto split: option.splits)
qed

lemma initialize_with_population:
  assumes "\<And>r x xs u. py_iter r = Inr (x # xs) \<Longrightarrow>
             set_pop self r u =
               Return (self\<lparr>pop := Some ((ctor r)\<lparr>pop_fit := Some (map (fitness (pi self)) (x # xs)),
                                   pop_valid := Some (map (feasible (pi self)) (x # xs))\<rparr>),
                           best_sol := Some (best_scored (pi self) x xs)\<rparr>) u"
    and "\<And>r. pop_repr (ctor r) = r \<and> pop_class (ctor r) = cls"
  shows "builds_population self start_at w
           = (\<exists>self' w'. initialize_with set_pop self start_at w = Return self' w')"
    and "initialize_with set_pop self start_at w = Return self' w' \<Longrightarrow>
           w' = snd (initializer self (batch_kwargs self start_at) w) \<and>
           (\<exists>P b. pop self' = Some P \<and> pop_class P = cls \<and>
              py_iter (pop_repr P)
                = Inr (supplied_reprs start_at @ drawn_reprs self start_at w) \<and>
              pop_fit P = Some (map (fitness (pi self))
                            (supplied_reprs start_at @ drawn_reprs self start_at w)) \<and>
              pop_valid P = Some (map (feasible (pi self))
                            (supplied_reprs start_at @ drawn_reprs self start_at w)) \<and>
              best_sol self' = Some b \<and>
              is_best_of (pi self)
                (supplied_reprs start_at @ drawn_reprs self start_at w) b)"
proof -
  have fwd: "\<exists>self' w'. initialize_with set_pop self start_at w = Return self' w'"
    if "builds_population self start_at w"
    using initialize_with_builds [OF that, of set_pop] assms(1) by metis
  show "builds_population self start_at w
           = (\<exists>self' w'. initialize_with set_pop self start_at w = Return self' w')"
    using fwd initialize_with_Return_builds by blast
  assume ret: "initialize_with set_pop self start_at w = Return self' w'"
  from initialize_with_builds [OF initialize_with_Return_builds [OF ret], of set_pop]
  obtain r x xs where c: "supplied_reprs start_at @ drawn_reprs self start_at w = x # xs"
    and it: "py_iter r = Inr (x # xs)"
    and eq: "initialize_with set_pop self start_at w
             = set_pop self r (snd (initializer self (batch_kwargs self start_at) w))"
    by blast
  from ret eq assms(1) [OF it]
  have s': "self' = self\<lparr>pop := Some ((ctor r)\<lparr>pop_fit := Some (map (fitness (pi self)) (x # xs)),
                                   pop_valid := Some (map (feasible (pi self)) (x # xs))\<rparr>),
                           best_sol := Some (best_scored (pi self) x xs)\<rparr>"
    and w': "w' = snd (initializer self (batch_kwargs self start_at) w)"
    by simp_all
  show "w' = snd (initializer self (batch_kwargs self start_at) w) \<and>
           (\<exists>P b. pop self' = Some P \<and> pop_class P = cls \<and>
              py_iter (pop_repr P)
                = Inr (supplied_reprs start_at @ drawn_reprs self start_at w) \<and>
              pop_fit P = Some (map (fitness (pi self))
                            (supplied_reprs start_at @ drawn_reprs self start_at w)) \<and>
              pop_valid P = Some (map (feasible (pi self))
                            (supplied_reprs start_at @ drawn_reprs self start_at w)) \<and>
              best_sol self' = Some b \<and>
              is_best_of (pi self)
                (supplied_reprs start_at @ drawn_reprs self start_at w) b)"
    unfolding c using w' it assms(2) best_scored_is_best [of "pi self" x xs]
    by (simp add: s')
qed

section \<open>Lemmas about construction\<close>

lemma RandomSearch_init_eq:
  "RandomSearch_init p ini sd dev w =
     (if torch_seed_ok sd
      then Inr (\<lparr>pi = p, initializer = ini, device = dev, best_sol = None, seed = sd\<rparr>,
                \<lparr>random_state = Rng \<bar>sd\<bar> 0,
                 torch_state = Rng (if sd < 0 then 2 ^ 64 - 1 + sd else sd) 0,
                 ambient = ambient w\<rparr>)
      else Inl RuntimeError)"
  by (cases w)
     (simp add: RandomSearch_init_def SearchAlgorithm_init_def search_algorithm.defs
        random_search.defs random_seed_def torch_manual_seed_def)

lemma PopulationBased_init_eq:
  "PopulationBased_init p ini mut n sd dev w =
     (if torch_seed_ok sd
      then Inr (\<lparr>pi = p, initializer = ini, device = dev, best_sol = None, seed = sd,
                 mutator = mut, pop_size = n, pop = None\<rparr>,
                \<lparr>random_state = Rng \<bar>sd\<bar> 0,
                 torch_state = Rng (if sd < 0 then 2 ^ 64 - 1 + sd else sd) 0,
                 ambient = ambient w\<rparr>)
      else Inl RuntimeError)"
  by (simp add: PopulationBased_init_def RandomSearch_init_eq random_search.defs
      population_based.defs)

lemma GeneticAlgorithm_init_eq:
  "GeneticAlgorithm_init p ini sel mut cross pm pc n elit repro sd dev w =
     (if torch_seed_ok sd
      then Inr (\<lparr>pi = p, initializer = ini, device = dev, best_sol = None, seed = sd,
                 mutator = mut, pop_size = n, pop = None, selector = sel, p_m = pm,
                 crossover = cross, p_c = pc, elitism = elit, reproduction = repro\<rparr>,
                \<lparr>random_state = Rng \<bar>sd\<bar> 0,
                 torch_state = Rng (if sd < 0 then 2 ^ 64 - 1 + sd else sd) 0,
                 ambient = ambient w\<rparr>)
      else Inl RuntimeError)"
  by (simp add: GeneticAlgorithm_init_def PopulationBased_init_eq population_based.defs
      genetic_algorithm.defs)

lemma torch_seed_ok_0 [simp]: "torch_seed_ok 0"
  by (simp add: torch_seed_ok_def)

section \<open>Lemmas about runs that start from the same generators\<close>

lemma same_rng_refl [simp]: "same_rng w w"
  by (simp add: same_rng_def)

lemma same_outcome_refl [simp]: "same_outcome r r"
  by (cases r) simp_all

lemma same_outcome_state: "same_outcome r r' \<Longrightarrow> outcome_state r = outcome_state r'"
  by (cases r; cases r') simp_all














section \<open>The concrete instances, evaluated\<close>

lemma example_search_eq:
  "example_search = \<lparr>pi = example_problem, initializer = counting_initializer, device = ''cpu'',
      best_sol = None, seed = 0\<rparr>"
  by (simp add: example_search_def RandomSearch_init_eq)

lemma seeded_world_eq: "seeded_world = \<lparr>random_state = Rng 0 0, torch_state = Rng 0 0, ambient = 0\<rparr>"
  by (simp add: seeded_world_def RandomSearch_init_eq fresh_world_def)

lemma example_get_random_sol:
  "get_random_sol example_search \<lparr>random_state = Rng 0 k, torch_state = Rng 0 0, ambient = a\<rparr>
    = (\<lparr>sol_repr = PyTensor (vec [int k]), fit = Some (int k), valid = Some (2 \<le> k)\<rparr>,
       \<lparr>random_state = Rng 0 (Suc k), torch_state = Rng 0 0, ambient = a\<rparr>)"
  by (simp add: get_random_sol_def example_search_eq counting_initializer_def Solution_def
      evaluate_sol_def example_problem_def vec_def)

lemma example_world_after:
  "world_after example_search \<lparr>random_state = Rng 0 k, torch_state = Rng 0 0, ambient = a\<rparr> n
    = \<lparr>random_state = Rng 0 (k + n), torch_state = Rng 0 0, ambient = a\<rparr>"
  by (induction n) (simp_all add: example_get_random_sol)

lemma example_draw:
  "draw example_search \<lparr>random_state = Rng 0 k, torch_state = Rng 0 0, ambient = a\<rparr> n
    = \<lparr>sol_repr = PyTensor (vec [int (k + n)]), fit = Some (int (k + n)),
       valid = Some (2 \<le> k + n)\<rparr>"
  by (simp add: draw_def example_world_after example_get_random_sol)

lemma example_run:
  "initialize_at_random example_search \<lparr>random_state = Rng 0 0, torch_state = Rng 0 0, ambient = a\<rparr>
     = Some (Return
         (example_search\<lparr>best_sol :=
            Some \<lparr>sol_repr = PyTensor (vec [2]), fit = Some 2, valid = Some True\<rparr>\<rparr>)
         \<lparr>random_state = Rng 0 3, torch_state = Rng 0 0, ambient = a\<rparr>)"
proof -
  have "\<forall>i<2. valid (draw example_search \<lparr>random_state = Rng 0 0, torch_state = Rng 0 0, ambient = a\<rparr> i)
          \<noteq> Some True"
    by (simp add: example_draw)
  moreover have "valid (draw example_search \<lparr>random_state = Rng 0 0, torch_state = Rng 0 0, ambient = a\<rparr> 2)
          = Some True"
    by (simp add: example_draw)
  ultimately show ?thesis
    using initialize_at_random_first_valid
      [of 2 example_search "\<lparr>random_state = Rng 0 0, torch_state = Rng 0 0, ambient = a\<rparr>"]
    by (simp add: example_draw example_world_after)
qed

lemma upt_4: "[0..<4] = [0, 1, 2, 3]"
  by (simp add: upt_rec)

lemma upt_3: "[0..<3] = [0, 1, 2]"
  by (simp add: upt_rec)

lemma scenario_search_eq:
  "scenario_search n = \<lparr>pi = scenario_problem, initializer = cyclic_initializer, device = ''cpu'',
      best_sol = None, seed = 0, mutator = identity_mutator, pop_size = n, pop = None\<rparr>"
  by (simp add: scenario_search_def PopulationBased_init_eq)

lemma scenario_world_eq:
  "PopulationBased_init scenario_problem cyclic_initializer identity_mutator n 0
          ''cpu'' fresh_world = Inr (scenario_search n, scenario_world)"
  by (simp add: scenario_search_def scenario_world_def PopulationBased_init_eq fresh_world_def)

lemma scenario_4_run:
  "PopulationBased_initialize (scenario_search 4) None scenario_world =
     Return ((scenario_search 4)
       \<lparr>pop := Some \<lparr>pop_class = PopulationClass,
                     pop_repr = PyTensor (Stack [vec [1], vec [2], vec [3], vec [4]]),
                     pop_fit = Some [1, 2, 3, 4],
                     pop_valid = Some [True, True, True, True]\<rparr>,
        best_sol := Some \<lparr>sol_repr = PyTensor (vec [1]), fit = Some 1, valid = Some True\<rparr>\<rparr>)
       scenario_world"
proof -
  let ?xs = "[PyTensor (vec [2]), PyTensor (vec [3]), PyTensor (vec [4])]"
  have ini: "initializer (scenario_search 4) (batch_kwargs (scenario_search 4) None) scenario_world
      = (PyList (PyTensor (vec [1]) # ?xs), scenario_world)"
    by (simp add: scenario_search_eq batch_kwargs_def cyclic_initializer_def upt_4)
  have "PopulationBased_initialize (scenario_search 4) None scenario_world =
      PopulationBased_set_pop (scenario_search 4)
        (PyTensor (Stack (map the_tensor (PyTensor (vec [1]) # ?xs)))) scenario_world"
    unfolding PopulationBased_initialize_def
    using initialize_with_forward [where start_at = None and seeds = "[]"
        and self = "scenario_search 4" and w = scenario_world
        and batch = "PyList (PyTensor (vec [1]) # ?xs)" and w' = scenario_world
        and drawn = "PyTensor (vec [1]) # ?xs" and x = "PyTensor (vec [1])" and xs = ?xs
        and set_pop = PopulationBased_set_pop] ini
    by (simp add: stackable_def vec_def)
  also have "\<dots> = Return ((scenario_search 4)
       \<lparr>pop := Some ((Population (PyTensor (Stack (map the_tensor (PyTensor (vec [1]) # ?xs)))))
                 \<lparr>pop_fit := Some (map (fitness (pi (scenario_search 4))) (PyTensor (vec [1]) # ?xs)),
                  pop_valid := Some (map (feasible (pi (scenario_search 4))) (PyTensor (vec [1]) # ?xs))\<rparr>),
        best_sol := Some (best_scored (pi (scenario_search 4)) (PyTensor (vec [1])) ?xs)\<rparr>)
       scenario_world"
    by (rule PopulationBased_set_pop_members) simp
  finally show ?thesis
    by (simp add: scenario_search_eq scenario_problem_def Population_def best_scored_def
        scored_def vec_def)
qed

lemma scenario_5_seeded_run:
  "PopulationBased_initialize (scenario_search 5) (Some two_seeds) scenario_world =
     Return ((scenario_search 5)
       \<lparr>pop := Some \<lparr>pop_class = PopulationClass,
                     pop_repr = PyTensor (Stack [vec [9], vec [8], vec [1], vec [2], vec [3]]),
                     pop_fit = Some [9, 8, 1, 2, 3],
                     pop_valid = Some [True, True, True, True, True]\<rparr>,
        best_sol := Some \<lparr>sol_repr = PyTensor (vec [1]), fit = Some 1, valid = Some True\<rparr>\<rparr>)
       scenario_world"
proof -
  let ?seeds = "[PyTensor (vec [9]), PyTensor (vec [8])]"
  let ?drawn = "[PyTensor (vec [1]), PyTensor (vec [2]), PyTensor (vec [3])]"
  let ?xs = "[PyTensor (vec [8]), PyTensor (vec [1]), PyTensor (vec [2]), PyTensor (vec [3])]"
  have ini: "initializer (scenario_search 5) (batch_kwargs (scenario_search 5) (Some two_seeds))
       scenario_world = (PyList ?drawn, scenario_world)"
    by (simp add: scenario_search_eq batch_kwargs_def cyclic_initializer_def upt_3 two_seeds_def)
  have "PopulationBased_initialize (scenario_search 5) (Some two_seeds) scenario_world =
      PopulationBased_set_pop (scenario_search 5)
        (PyTensor (Stack (map the_tensor (PyTensor (vec [9]) # ?xs)))) scenario_world"
    unfolding PopulationBased_initialize_def
    using initialize_with_forward [where start_at = "Some two_seeds" and seeds = ?seeds
        and self = "scenario_search 5" and w = scenario_world
        and batch = "PyList ?drawn" and w' = scenario_world
        and drawn = ?drawn and x = "PyTensor (vec [9])" and xs = ?xs
        and set_pop = PopulationBased_set_pop] ini
    by (simp add: stackable_def vec_def two_seeds_def)
  also have "\<dots> = Return ((scenario_search 5)
       \<lparr>pop := Some ((Population (PyTensor (Stack (map the_tensor (PyTensor (vec [9]) # ?xs)))))
                 \<lparr>pop_fit := Some (map (fitness (pi (scenario_search 5))) (PyTensor (vec [9]) # ?xs)),
                  pop_valid := Some (map (feasible (pi (scenario_search 5))) (PyTensor (vec [9]) # ?xs))\<rparr>),
        best_sol := Some (best_scored (pi (scenario_search 5)) (PyTensor (vec [9])) ?xs)\<rparr>)
       scenario_world"
    by (rule PopulationBased_set_pop_members) simp
  finally show ?thesis
    by (simp add: scenario_search_eq scenario_problem_def Population_def best_scored_def
        scored_def vec_def)
qed

lemma scenario_0_run:
  "PopulationBased_initialize (scenario_search 0) None scenario_world =
     Raise IndexError (scenario_search 0) scenario_world"
  by (simp add: PopulationBased_initialize_def initialize_with_def seeded_def
      scenario_search_eq cyclic_initializer_def)

lemma genetic_search_eq:
  "genetic_search pm pc n = \<lparr>pi = scenario_problem, initializer = tree_initializer,
      device = ''cpu'', best_sol = None, seed = 0, mutator = identity_mutator, pop_size = n,
      pop = None, selector = no_selector, p_m = pm, crossover = copy_crossover, p_c = pc,
      elitism = True, reproduction = False\<rparr>"
  by (simp add: genetic_search_def GeneticAlgorithm_init_eq)

lemma echo_search_eq:
  "echo_search = \<lparr>pi = scenario_problem, initializer = echo_initializer, device = ''cuda'',
      best_sol = None, seed = 0, mutator = identity_mutator, pop_size = 1, pop = None\<rparr>"
  by (simp add: echo_search_def PopulationBased_init_eq)

lemma echo_run:
  "PopulationBased_initialize echo_search None scenario_world =
     Return (echo_search
       \<lparr>pop := Some \<lparr>pop_class = PopulationClass, pop_repr = PyList [PyList [PyInt 0]],
                     pop_fit = Some [0], pop_valid = Some [True]\<rparr>,
        best_sol := Some \<lparr>sol_repr = PyList [PyInt 0], fit = Some 0, valid = Some True\<rparr>\<rparr>)
       scenario_world"
proof -
  have ini: "initializer echo_search (batch_kwargs echo_search None) scenario_world
      = (PyList [PyList [PyInt 0]], scenario_world)"
    by (simp add: echo_search_eq batch_kwargs_def echo_initializer_def)
  have "PopulationBased_initialize echo_search None scenario_world =
      PopulationBased_set_pop echo_search (PyList [PyList [PyInt 0]]) scenario_world"
    unfolding PopulationBased_initialize_def
    using initialize_with_forward [where start_at = None and seeds = "[]"
        and self = echo_search and w = scenario_world
        and batch = "PyList [PyList [PyInt 0]]" and w' = scenario_world
        and drawn = "[PyList [PyInt 0]]" and x = "PyList [PyInt 0]" and xs = "[]"
        and set_pop = PopulationBased_set_pop] ini
    by simp
  also have "\<dots> = Return (echo_search
       \<lparr>pop := Some ((Population (PyList [PyList [PyInt 0]]))
                 \<lparr>pop_fit := Some (map (fitness (pi echo_search)) [PyList [PyInt 0]]),
                  pop_valid := Some (map (feasible (pi echo_search)) [PyList [PyInt 0]])\<rparr>),
        best_sol := Some (best_scored (pi echo_search) (PyList [PyInt 0]) [])\<rparr>)
       scenario_world"
    by (rule PopulationBased_set_pop_members) simp
  finally show ?thesis
    by (simp add: echo_search_eq scenario_problem_def Population_def best_scored_def scored_def)
qed

lemma misconfigured_run:
  "GeneticAlgorithm_initialize (genetic_search 2 (- 1) (- 3)) (Some tree_seeds) scenario_world =
     Return ((genetic_search 2 (- 1) (- 3))
       \<lparr>pop := Some \<lparr>pop_class = PopulationTreeClass,
                     pop_repr = PyList [PyList [PyInt 7], PyList [PyInt 5]],
                     pop_fit = Some [7, 5], pop_valid = Some [True, True]\<rparr>,
        best_sol := Some \<lparr>sol_repr = PyList [PyInt 5], fit = Some 5, valid = Some True\<rparr>\<rparr>)
       scenario_world"
proof -
  let ?g = "genetic_search 2 (- 1) (- 3)"
  have ini: "initializer ?g (batch_kwargs ?g (Some tree_seeds)) scenario_world
      = (PyList [], scenario_world)"
    by (simp add: genetic_search_eq batch_kwargs_def tree_initializer_def tree_seeds_def)
  have "GeneticAlgorithm_initialize ?g (Some tree_seeds) scenario_world =
      GeneticAlgorithm_set_pop ?g (PyList [PyList [PyInt 7], PyList [PyInt 5]]) scenario_world"
    unfolding GeneticAlgorithm_initialize_def
    using initialize_with_forward [where start_at = "Some tree_seeds"
        and seeds = "[PyList [PyInt 7], PyList [PyInt 5]]"
        and self = ?g and w = scenario_world
        and batch = "PyList []" and w' = scenario_world
        and drawn = "[]" and x = "PyList [PyInt 7]" and xs = "[PyList [PyInt 5]]"
        and set_pop = GeneticAlgorithm_set_pop] ini
    by (simp add: tree_seeds_def)
  also have "\<dots> = Return (?g
       \<lparr>pop := Some ((PopulationTree (PyList [PyList [PyInt 7], PyList [PyInt 5]]))
                 \<lparr>pop_fit := Some (map (fitness (pi ?g)) [PyList [PyInt 7], PyList [PyInt 5]]),
                  pop_valid := Some (map (feasible (pi ?g)) [PyList [PyInt 7], PyList [PyInt 5]])\<rparr>),
        best_sol := Some (best_scored (pi ?g) (PyList [PyInt 7]) [PyList [PyInt 5]])\<rparr>)
       scenario_world"
    by (rule GeneticAlgorithm_set_pop_members) simp
  finally show ?thesis
    by (simp add: genetic_search_eq scenario_problem_def PopulationTree_def best_scored_def
        scored_def)
qed



lemma scenario_random_search_eq:
  "scenario_random_search = \<lparr>pi = scenario_problem, initializer = cyclic_initializer,
      device = ''cpu'', best_sol = None, seed = 0\<rparr>"
  by (simp add: scenario_random_search_def RandomSearch_init_eq)

lemma scenario_random_draw:
  "get_random_sol scenario_random_search w
     = (\<lparr>sol_repr = PyTensor (vec [1]), fit = Some 1, valid = Some True\<rparr>, w)"
  by (simp add: get_random_sol_def scenario_random_search_eq cyclic_initializer_def
      Solution_def evaluate_sol_def scenario_problem_def vec_def)

lemma scenario_random_run:
  "initialize_at_random scenario_random_search w
     = Some (Return
         (scenario_random_search\<lparr>best_sol :=
            Some \<lparr>sol_repr = PyTensor (vec [1]), fit = Some 1, valid = Some True\<rparr>\<rparr>) w)"
  using initialize_at_random_first_valid [of 0 scenario_random_search w]
  by (simp add: draw_def scenario_random_draw)

lemma evolved_search_eq:
  "GeneticAlgorithm_initialize (genetic_search 0.2 0.8 3) None scenario_world =
     Return ((genetic_search 0.2 0.8 3)
       \<lparr>pop := Some \<lparr>pop_class = PopulationTreeClass,
                     pop_repr = PyList [PyList [PyInt 10], PyList [PyInt 11], PyList [PyInt 12]],
                     pop_fit = Some [10, 11, 12], pop_valid = Some [True, True, True]\<rparr>,
        best_sol := Some \<lparr>sol_repr = PyList [PyInt 10], fit = Some 10, valid = Some True\<rparr>\<rparr>)
       scenario_world"
proof -
  let ?g = "genetic_search 0.2 0.8 3"
  let ?xs = "[PyList [PyInt 11], PyList [PyInt 12]]"
  have ini: "initializer ?g (batch_kwargs ?g None) scenario_world
      = (PyList (PyList [PyInt 10] # ?xs), scenario_world)"
    by (simp add: genetic_search_eq batch_kwargs_def tree_initializer_def upt_3)
  have "GeneticAlgorithm_initialize ?g None scenario_world =
      GeneticAlgorithm_set_pop ?g (PyList (PyList [PyInt 10] # ?xs)) scenario_world"
    unfolding GeneticAlgorithm_initialize_def
    using initialize_with_forward [where start_at = None and seeds = "[]"
        and self = ?g and w = scenario_world
        and batch = "PyList (PyList [PyInt 10] # ?xs)" and w' = scenario_world
        and drawn = "PyList [PyInt 10] # ?xs" and x = "PyList [PyInt 10]" and xs = ?xs
        and set_pop = GeneticAlgorithm_set_pop] ini
    by simp
  also have "\<dots> = Return (?g
       \<lparr>pop := Some ((PopulationTree (PyList (PyList [PyInt 10] # ?xs)))
                 \<lparr>pop_fit := Some (map (fitness (pi ?g)) (PyList [PyInt 10] # ?xs)),
                  pop_valid := Some (map (feasible (pi ?g)) (PyList [PyInt 10] # ?xs))\<rparr>),
        best_sol := Some (best_scored (pi ?g) (PyList [PyInt 10]) ?xs)\<rparr>)
       scenario_world"
    by (rule GeneticAlgorithm_set_pop_members) simp
  finally show ?thesis
    by (simp add: genetic_search_eq scenario_problem_def PopulationTree_def best_scored_def
        scored_def)
qed

lemma evolved_search_state:
  "evolved_search = (genetic_search 0.2 0.8 3)
       \<lparr>pop := Some \<lparr>pop_class = PopulationTreeClass,
                     pop_repr = PyList [PyList [PyInt 10], PyList [PyInt 11], PyList [PyInt 12]],
                     pop_fit = Some [10, 11, 12], pop_valid = Some [True, True, True]\<rparr>,
        best_sol := Some \<lparr>sol_repr = PyList [PyInt 10], fit = Some 10, valid = Some True\<rparr>\<rparr>"
  unfolding evolved_search_def evolved_search_eq by simp

lemma evolved_step:
  "GeneticAlgorithm_step worse_breeding evolved_search scenario_world =
     Return (evolved_search
       \<lparr>pop := Some \<lparr>pop_class = PopulationTreeClass,
                     pop_repr = PyList [PyList [PyInt 10], PyList [PyInt 50], PyList [PyInt 50]],
                     pop_fit = Some [10, 50, 50], pop_valid = Some [True, True, True]\<rparr>,
        best_sol := Some \<lparr>sol_repr = PyList [PyInt 10], fit = Some 10, valid = Some True\<rparr>\<rparr>)
       scenario_world"
proof -
  have e: "elitism evolved_search"
    and b: "best_sol evolved_search
       = Some \<lparr>sol_repr = PyList [PyInt 10], fit = Some 10, valid = Some True\<rparr>"
    by (simp_all add: evolved_search_state genetic_search_eq)
  have br: "worse_breeding evolved_search (pop_size evolved_search - 1) scenario_world
      = ([PyList [PyInt 50], PyList [PyInt 50]], scenario_world)"
    by (simp add: worse_breeding_def evolved_search_state genetic_search_eq numeral_2_eq_2)
  show ?thesis
    unfolding elitist_step [OF e b] br
    by (simp add: evolved_search_state genetic_search_eq scenario_problem_def PopulationTree_def
        best_scored_def scored_def)
qed










section \<open>The specified properties\<close>

text \<open>
  C1. After a call of \<^verbatim>\<open>RandomSearch._initialize\<close> with \<^verbatim>\<open>start_at = None\<close> that returns,
  \<^verbatim>\<open>best_sol\<close> is set and its \<^verbatim>\<open>valid\<close> flag is true: the call never returns with an
  infeasible best solution installed.
\<close>

theorem initialize_None_best_sol_valid:
  assumes "RandomSearch_initialize self None w = Some (Return self' w')"
  shows "\<exists>b. best_sol self' = Some b \<and> valid b = Some True"
proof -
  from assms have "initialize_at_random self w = Some (Return self' w')"
    by (simp add: RandomSearch_initialize_def)
  from retry_returns_valid [OF this [unfolded initialize_at_random_def]]
  show ?thesis by simp
qed

theorem initialize_None_best_sol_valid_witness:
  "RandomSearch_initialize example_search None seeded_world
     = Some (Return
         (example_search\<lparr>best_sol :=
            Some \<lparr>sol_repr = PyTensor (vec [2]), fit = Some 2, valid = Some True\<rparr>\<rparr>)
         \<lparr>random_state = Rng 0 3, torch_state = Rng 0 0, ambient = 0\<rparr>)
   \<and> (\<exists>b. best_sol (example_search\<lparr>best_sol :=
            Some \<lparr>sol_repr = PyTensor (vec [2]), fit = Some 2, valid = Some True\<rparr>\<rparr>) = Some b
          \<and> valid b = Some True)"
proof -
  have run: "RandomSearch_initialize example_search None seeded_world
     = Some (Return
         (example_search\<lparr>best_sol :=
            Some \<lparr>sol_repr = PyTensor (vec [2]), fit = Some 2, valid = Some True\<rparr>\<rparr>)
         \<lparr>random_state = Rng 0 3, torch_state = Rng 0 0, ambient = 0\<rparr>)"
    by (simp add: RandomSearch_initialize_def seeded_world_eq example_run)
  from run initialize_None_best_sol_valid [OF run] show ?thesis by blast
qed

text \<open>
  C8. With \<^verbatim>\<open>start_at = None\<close>, \<^verbatim>\<open>RandomSearch._initialize\<close> draws one random solution
  after another and stops exactly at the first feasible one, which it installs as
  \<^verbatim>\<open>best_sol\<close>: if the draws before the \<open>n\<close>-th are infeasible and the \<open>n\<close>-th (counting
  from 0) is feasible, the call returns after exactly \<open>n + 1\<close> draws; there is no retry
  cap, and if no draw is ever feasible the call does not terminate.
\<close>

theorem initialize_None_retry_loop:
  "((\<forall>i<n. valid (draw self w i) \<noteq> Some True) \<and> valid (draw self w n) = Some True \<longrightarrow>
      RandomSearch_initialize self None w
        = Some (Return (self\<lparr>best_sol := Some (draw self w n)\<rparr>) (world_after self w (Suc n))))
   \<and> ((\<forall>i. valid (draw self w i) \<noteq> Some True) \<longrightarrow> RandomSearch_initialize self None w = None)"
proof (intro conjI impI)
  assume "(\<forall>i<n. valid (draw self w i) \<noteq> Some True) \<and> valid (draw self w n) = Some True"
  then show "RandomSearch_initialize self None w
        = Some (Return (self\<lparr>best_sol := Some (draw self w n)\<rparr>) (world_after self w (Suc n)))"
    using initialize_at_random_first_valid [of n self w]
    by (simp add: RandomSearch_initialize_def del: world_after.simps)
next
  assume all: "\<forall>i. valid (draw self w i) \<noteq> Some True"
  show "RandomSearch_initialize self None w = None"
  proof (cases "initialize_at_random self w")
    case None
    then show ?thesis by (simp add: RandomSearch_initialize_def)
  next
    case (Some r)
    from initialize_at_random_Some_has_valid [OF this] all show ?thesis by blast
  qed
qed

theorem initialize_None_retry_loop_witness:
  "valid (draw example_search seeded_world 0) \<noteq> Some True
   \<and> valid (draw example_search seeded_world 1) \<noteq> Some True
   \<and> valid (draw example_search seeded_world 2) = Some True
   \<and> RandomSearch_initialize example_search None seeded_world
       = Some (Return
           (example_search\<lparr>best_sol :=
              Some \<lparr>sol_repr = PyTensor (vec [2]), fit = Some 2, valid = Some True\<rparr>\<rparr>)
           \<lparr>random_state = Rng 0 3, torch_state = Rng 0 0, ambient = 0\<rparr>)
   \<and> (\<forall>i. valid (draw hopeless_search seeded_world i) \<noteq> Some True)
   \<and> RandomSearch_initialize hopeless_search None seeded_world = None"
proof -
  have d: "valid (draw example_search seeded_world i) = Some (2 \<le> i)" for i
    by (simp add: seeded_world_eq example_draw)
  have lt2: "\<forall>i<2. valid (draw example_search seeded_world i) \<noteq> Some True"
    by (simp add: d)
  have never: "\<forall>i. valid (draw hopeless_search seeded_world i) \<noteq> Some True"
    by (simp add: draw_valid hopeless_search_def)
  have "RandomSearch_initialize example_search None seeded_world
       = Some (Return (example_search\<lparr>best_sol := Some (draw example_search seeded_world 2)\<rparr>)
           (world_after example_search seeded_world (Suc 2)))"
    using initialize_None_retry_loop [of 2 example_search seeded_world] lt2 d by simp
  moreover have "RandomSearch_initialize hopeless_search None seeded_world = None"
    using initialize_None_retry_loop [of 0 hopeless_search seeded_world] never by blast
  ultimately show ?thesis
    using never d by (simp add: seeded_world_eq example_draw example_world_after)
qed

text \<open>
  C10. A call of \<^verbatim>\<open>_initialize\<close>, with or without \<^verbatim>\<open>start_at\<close>, whether it returns or
  raises, leaves the configuration of the instance as it was: \<^verbatim>\<open>pi\<close>, \<^verbatim>\<open>initializer\<close>,
  \<^verbatim>\<open>mutator\<close>, \<^verbatim>\<open>pop_size\<close>, \<^verbatim>\<open>seed\<close> and \<^verbatim>\<open>device\<close> are unchanged. Only \<^verbatim>\<open>best_sol\<close>
  (RandomSearch) or \<^verbatim>\<open>pop\<close> and \<^verbatim>\<open>best_sol\<close> (PopulationBased, GeneticAlgorithm) are
  assigned; the stored \<^verbatim>\<open>pop_size\<close> is not reduced by the seeds.
\<close>

theorem initialize_frame:
  "(RandomSearch_initialize rs start_at w = Some r \<longrightarrow>
      pi (outcome_state r) = pi rs \<and> initializer (outcome_state r) = initializer rs \<and>
      seed (outcome_state r) = seed rs \<and> device (outcome_state r) = device rs \<and>
      (\<exists>b. outcome_state r = rs\<lparr>best_sol := b\<rparr>))
   \<and> (pb' = outcome_state (PopulationBased_initialize pb start_at' w') \<longrightarrow>
      pi pb' = pi pb \<and> initializer pb' = initializer pb \<and> mutator pb' = mutator pb \<and>
      pop_size pb' = pop_size pb \<and> seed pb' = seed pb \<and> device pb' = device pb \<and>
      (\<exists>P b. pb' = pb\<lparr>pop := P, best_sol := b\<rparr>))
   \<and> (ga' = outcome_state (GeneticAlgorithm_initialize ga start_at'' w'') \<longrightarrow>
      pi ga' = pi ga \<and> initializer ga' = initializer ga \<and> mutator ga' = mutator ga \<and>
      pop_size ga' = pop_size ga \<and> seed ga' = seed ga \<and> device ga' = device ga \<and>
      (\<exists>P b. ga' = ga\<lparr>pop := P, best_sol := b\<rparr>))"
proof (intro conjI impI)
  assume run: "RandomSearch_initialize rs start_at w = Some r"
  have self: "rs = rs\<lparr>best_sol := best_sol rs\<rparr>" by simp
  have "\<exists>b. outcome_state r = rs\<lparr>best_sol := b\<rparr>"
  proof (cases "initialize_at_random rs w = Some r")
    case True
    from retry_frame [OF this [unfolded initialize_at_random_def]] show ?thesis by auto
  next
    case False
    with run obtain x where x: "start_at = Some x" 
      by (cases start_at) (auto simp: RandomSearch_initialize_def)
    show ?thesis
    proof (cases "py_bool x")
      case (Inl e)
      with run x have "outcome_state r = rs" by (auto simp: RandomSearch_initialize_def)
      with self show ?thesis by metis
    next
      case (Inr t)
      with run x False show ?thesis
        by (auto simp: RandomSearch_initialize_def split: if_splits)
    qed
  qed
  then obtain b where b: "outcome_state r = rs\<lparr>best_sol := b\<rparr>" ..
  show "pi (outcome_state r) = pi rs" "initializer (outcome_state r) = initializer rs"
    "seed (outcome_state r) = seed rs" "device (outcome_state r) = device rs"
    "\<exists>b. outcome_state r = rs\<lparr>best_sol := b\<rparr>"
    using b by auto
next
  assume eq: "pb' = outcome_state (PopulationBased_initialize pb start_at' w')"
  from initialize_with_frame [of PopulationBased_set_pop pb start_at' w',
      OF PopulationBased_set_pop_frame]
  obtain P b where "pb' = pb\<lparr>pop := P, best_sol := b\<rparr>"
    unfolding eq PopulationBased_initialize_def by blast
  then show "pi pb' = pi pb" "initializer pb' = initializer pb" "mutator pb' = mutator pb"
    "pop_size pb' = pop_size pb" "seed pb' = seed pb" "device pb' = device pb"
    "\<exists>P b. pb' = pb\<lparr>pop := P, best_sol := b\<rparr>"
    by auto
next
  assume eq: "ga' = outcome_state (GeneticAlgorithm_initialize ga start_at'' w'')"
  from initialize_with_frame [of GeneticAlgorithm_set_pop ga start_at'' w'',
      OF GeneticAlgorithm_set_pop_frame]
  obtain P b where "ga' = ga\<lparr>pop := P, best_sol := b\<rparr>"
    unfolding eq GeneticAlgorithm_initialize_def by blast
  then show "pi ga' = pi ga" "initializer ga' = initializer ga" "mutator ga' = mutator ga"
    "pop_size ga' = pop_size ga" "seed ga' = seed ga" "device ga' = device ga"
    "\<exists>P b. ga' = ga\<lparr>pop := P, best_sol := b\<rparr>"
    by auto
qed

theorem initialize_frame_witness:
  "RandomSearch_initialize example_search None seeded_world
     = Some (Return
         (example_search\<lparr>best_sol :=
            Some \<lparr>sol_repr = PyTensor (vec [2]), fit = Some 2, valid = Some True\<rparr>\<rparr>)
         \<lparr>random_state = Rng 0 3, torch_state = Rng 0 0, ambient = 0\<rparr>)
   \<and> seed (example_search\<lparr>best_sol :=
            Some \<lparr>sol_repr = PyTensor (vec [2]), fit = Some 2, valid = Some True\<rparr>\<rparr>) = 0
   \<and> pop_size (outcome_state
         (PopulationBased_initialize (scenario_search 5) (Some two_seeds) scenario_world)) = 5
   \<and> device (outcome_state
         (PopulationBased_initialize (scenario_search 5) (Some two_seeds) scenario_world)) = ''cpu''
   \<and> pop_size (outcome_state
         (GeneticAlgorithm_initialize (genetic_search 2 3 4) None scenario_world)) = 4
   \<and> pi (outcome_state
         (GeneticAlgorithm_initialize (genetic_search 2 3 4) None scenario_world))
       = scenario_problem"
proof -
  let ?r = "Return
         (example_search\<lparr>best_sol :=
            Some \<lparr>sol_repr = PyTensor (vec [2]), fit = Some 2, valid = Some True\<rparr>\<rparr>)
         \<lparr>random_state = Rng 0 3, torch_state = Rng 0 0, ambient = 0\<rparr>"
  have run: "RandomSearch_initialize example_search None seeded_world = Some ?r"
    by (simp add: RandomSearch_initialize_def seeded_world_eq example_run)
  from run initialize_frame [where rs = example_search and start_at = None
      and w = seeded_world and r = ?r
      and pb = "scenario_search 5" and start_at' = "Some two_seeds" and w' = scenario_world
      and pb' = "outcome_state
         (PopulationBased_initialize (scenario_search 5) (Some two_seeds) scenario_world)"
      and ga = "genetic_search 2 3 4" and start_at'' = None and w'' = scenario_world
      and ga' = "outcome_state
         (GeneticAlgorithm_initialize (genetic_search 2 3 4) None scenario_world)"]
  show ?thesis
    by (simp add: scenario_search_eq genetic_search_eq example_search_eq)
qed

text \<open>
  C6. \<^verbatim>\<open>_initialize\<close> of a PopulationBased or GeneticAlgorithm instance returns exactly when
  \<^verbatim>\<open>start_at\<close> and the batch of the initializer can be iterated, together hold at least
  one representation, and can be stacked if the first is a tensor. When it returns, the
  population (a \<^verbatim>\<open>Population\<close>, respectively a \<^verbatim>\<open>PopulationTree\<close>) consists of the supplied
  representations followed by the drawn ones, it holds the fitness and validity of every
  member as one batched \<^verbatim>\<open>pi.evaluate_pop\<close> assigns them, and \<^verbatim>\<open>best_sol\<close> is a member of the
  population of minimum fitness when the problem minimises, of maximum fitness
  otherwise. In the scenario with \<^verbatim>\<open>pop_size = 4\<close>, \<^verbatim>\<open>seed = 0\<close>, an initializer that returns
  the representations 1, 2, 3, 4 in order and a minimising problem whose fitness is the
  first entry, the fitness of \<^verbatim>\<open>best_sol\<close> is 1.
\<close>

theorem initialize_best_of_population:
  "builds_population pb start_at w
     = (\<exists>pb' w'. PopulationBased_initialize pb start_at w = Return pb' w')
   \<and> (PopulationBased_initialize pb start_at w = Return pb' w' \<longrightarrow>
        w' = snd (initializer pb (batch_kwargs pb start_at) w) \<and>
        (\<exists>P b. pop pb' = Some P \<and> pop_class P = PopulationClass \<and>
           py_iter (pop_repr P) = Inr (supplied_reprs start_at @ drawn_reprs pb start_at w) \<and>
           pop_fit P = Some (map (fitness (pi pb))
                         (supplied_reprs start_at @ drawn_reprs pb start_at w)) \<and>
           pop_valid P = Some (map (feasible (pi pb))
                         (supplied_reprs start_at @ drawn_reprs pb start_at w)) \<and>
           best_sol pb' = Some b \<and>
           is_best_of (pi pb) (supplied_reprs start_at @ drawn_reprs pb start_at w) b))
   \<and> builds_population ga start_at' v
     = (\<exists>ga' v'. GeneticAlgorithm_initialize ga start_at' v = Return ga' v')
   \<and> (GeneticAlgorithm_initialize ga start_at' v = Return ga' v' \<longrightarrow>
        v' = snd (initializer ga (batch_kwargs ga start_at') v) \<and>
        (\<exists>P b. pop ga' = Some P \<and> pop_class P = PopulationTreeClass \<and>
           py_iter (pop_repr P) = Inr (supplied_reprs start_at' @ drawn_reprs ga start_at' v) \<and>
           pop_fit P = Some (map (fitness (pi ga))
                         (supplied_reprs start_at' @ drawn_reprs ga start_at' v)) \<and>
           pop_valid P = Some (map (feasible (pi ga))
                         (supplied_reprs start_at' @ drawn_reprs ga start_at' v)) \<and>
           best_sol ga' = Some b \<and>
           is_best_of (pi ga) (supplied_reprs start_at' @ drawn_reprs ga start_at' v) b))"
proof -
  have P: "pop_repr (Population r) = r \<and> pop_class (Population r) = PopulationClass"
    and T: "pop_repr (PopulationTree r) = r \<and> pop_class (PopulationTree r) = PopulationTreeClass"
    for r
    by (simp_all add: Population_def PopulationTree_def)
  note pb = initialize_with_population
    [where set_pop = PopulationBased_set_pop and ctor = Population and self = pb
       and cls = PopulationClass, OF PopulationBased_set_pop_members P,
     folded PopulationBased_initialize_def]
  note ga = initialize_with_population
    [where set_pop = GeneticAlgorithm_set_pop and ctor = PopulationTree and self = ga
       and cls = PopulationTreeClass, OF GeneticAlgorithm_set_pop_members T,
     folded GeneticAlgorithm_initialize_def]
  show ?thesis
    using pb(1) [of start_at w] pb(2) [of start_at w pb' w']
      ga(1) [of start_at' v] ga(2) [of start_at' v ga' v']
    by blast
qed

theorem initialize_best_of_population_witness:
  "builds_population (scenario_search 4) None scenario_world
   \<and> PopulationBased_initialize (scenario_search 4) None scenario_world =
     Return ((scenario_search 4)
       \<lparr>pop := Some \<lparr>pop_class = PopulationClass,
                     pop_repr = PyTensor (Stack [vec [1], vec [2], vec [3], vec [4]]),
                     pop_fit = Some [1, 2, 3, 4],
                     pop_valid = Some [True, True, True, True]\<rparr>,
        best_sol := Some \<lparr>sol_repr = PyTensor (vec [1]), fit = Some 1, valid = Some True\<rparr>\<rparr>)
       scenario_world
   \<and> is_best_of scenario_problem
        [PyTensor (vec [1]), PyTensor (vec [2]), PyTensor (vec [3]), PyTensor (vec [4])]
        \<lparr>sol_repr = PyTensor (vec [1]), fit = Some 1, valid = Some True\<rparr>
   \<and> builds_population (genetic_search 0.2 0.8 3) None scenario_world
   \<and> GeneticAlgorithm_initialize (genetic_search 0.2 0.8 3) None scenario_world =
     Return ((genetic_search 0.2 0.8 3)
       \<lparr>pop := Some \<lparr>pop_class = PopulationTreeClass,
                     pop_repr = PyList [PyList [PyInt 10], PyList [PyInt 11], PyList [PyInt 12]],
                     pop_fit = Some [10, 11, 12], pop_valid = Some [True, True, True]\<rparr>,
        best_sol := Some \<lparr>sol_repr = PyList [PyInt 10], fit = Some 10, valid = Some True\<rparr>\<rparr>)
       scenario_world
   \<and> is_best_of scenario_problem [PyList [PyInt 10], PyList [PyInt 11], PyList [PyInt 12]]
        \<lparr>sol_repr = PyList [PyInt 10], fit = Some 10, valid = Some True\<rparr>"
proof -
  let ?s = "(scenario_search 4)
       \<lparr>pop := Some \<lparr>pop_class = PopulationClass,
                     pop_repr = PyTensor (Stack [vec [1], vec [2], vec [3], vec [4]]),
                     pop_fit = Some [1, 2, 3, 4],
                     pop_valid = Some [True, True, True, True]\<rparr>,
        best_sol := Some \<lparr>sol_repr = PyTensor (vec [1]), fit = Some 1, valid = Some True\<rparr>\<rparr>"
  let ?g = "(genetic_search 0.2 0.8 3)
       \<lparr>pop := Some \<lparr>pop_class = PopulationTreeClass,
                     pop_repr = PyList [PyList [PyInt 10], PyList [PyInt 11], PyList [PyInt 12]],
                     pop_fit = Some [10, 11, 12], pop_valid = Some [True, True, True]\<rparr>,
        best_sol := Some \<lparr>sol_repr = PyList [PyInt 10], fit = Some 10, valid = Some True\<rparr>\<rparr>"
  note inst = initialize_best_of_population [where pb = "scenario_search 4" and start_at = None
      and w = scenario_world and pb' = ?s and w' = scenario_world
      and ga = "genetic_search 0.2 0.8 3" and start_at' = None and v = scenario_world
      and ga' = ?g and v' = scenario_world]
  have sup: "supplied_reprs None = []"
    by (simp add: supplied_reprs_def)
  have d4: "drawn_reprs (scenario_search 4) None scenario_world
      = [PyTensor (vec [1]), PyTensor (vec [2]), PyTensor (vec [3]), PyTensor (vec [4])]"
    by (simp add: drawn_reprs_def batch_kwargs_def scenario_search_eq cyclic_initializer_def upt_4)
  have d3: "drawn_reprs (genetic_search 0.2 0.8 3) None scenario_world
      = [PyList [PyInt 10], PyList [PyInt 11], PyList [PyInt 12]]"
    by (simp add: drawn_reprs_def batch_kwargs_def genetic_search_eq tree_initializer_def upt_3)
  from inst scenario_4_run evolved_search_eq
  have "builds_population (scenario_search 4) None scenario_world"
    and "builds_population (genetic_search 0.2 0.8 3) None scenario_world"
    and "\<exists>b. best_sol ?s = Some b \<and> is_best_of (pi (scenario_search 4))
           (supplied_reprs None @ drawn_reprs (scenario_search 4) None scenario_world) b"
    and "\<exists>b. best_sol ?g = Some b \<and> is_best_of (pi (genetic_search 0.2 0.8 3))
           (supplied_reprs None @ drawn_reprs (genetic_search 0.2 0.8 3) None scenario_world) b"
    by blast+
  then show ?thesis
    using scenario_4_run evolved_search_eq
    unfolding sup d4 d3
    by (simp add: scenario_search_eq genetic_search_eq)
qed

text \<open>
  C3, as amended. For a PopulationBased instance with \<^verbatim>\<open>pop_size = N\<close>, \<open>N \<ge> 1\<close>, and a
  \<^verbatim>\<open>start_at\<close> sequence of \<open>k \<le> N\<close> representations (or \<^verbatim>\<open>None\<close>, \<open>k = 0\<close>), if the
  one batched initializer call, made with \<^verbatim>\<open>n_sols = N - k\<close>, returns exactly \<open>N - k\<close>
  representations, and the representations can be stacked whenever the first one is a
  tensor, then \<^verbatim>\<open>_initialize\<close> returns with a population of exactly \<open>N\<close> members: the
  seeds verbatim, followed by the drawn ones. (For \<open>N = 0\<close> the call raises.)
\<close>

theorem initialize_population_size:
  assumes "start_at = None \<and> seeds = [] \<or> (\<exists>sa. start_at = Some sa \<and> py_iter sa = Inr seeds)"
    and "1 \<le> pop_size self" and "int (length seeds) \<le> pop_size self"
    and "initializer self
           \<lparr>kw_sspace = sspace (pi self), kw_device = None,
            kw_n_sols = Some (pop_size self - int (length seeds))\<rparr> w = (batch, w')"
    and "py_iter batch = Inr drawn"
    and "int (length drawn) = pop_size self - int (length seeds)"
    and "is_tensor (hd (seeds @ drawn)) \<longrightarrow> stackable (seeds @ drawn)"
  shows "\<exists>self' P. PopulationBased_initialize self start_at w = Return self' w' \<and>
           pop self' = Some P \<and> py_iter (pop_repr P) = Inr (seeds @ drawn) \<and>
           py_len (pop_repr P) = Inr (nat (pop_size self))"
proof -
  have sd: "case start_at of None \<Rightarrow> seeds = [] | Some sa \<Rightarrow> py_iter sa = Inr seeds"
    using assms(1) by auto
  have k: "(case start_at of None \<Rightarrow> 0
          | Some sa \<Rightarrow> (case py_len sa of Inl e \<Rightarrow> 0 | Inr k \<Rightarrow> int k)) = int (length seeds)"
    using assms(1) by (auto simp: py_iter_len)
  have ini: "initializer self (batch_kwargs self start_at) w = (batch, w')"
    using assms(4) by (simp add: batch_kwargs_def k)
  have len: "length (seeds @ drawn) = nat (pop_size self)"
    using assms(3,6) by simp
  with assms(2) obtain x xs where c: "seeds @ drawn = x # xs"
    by (cases "seeds @ drawn") auto
  have st: "is_tensor x \<longrightarrow> stackable (x # xs)"
    using assms(7) c by simp
  let ?r = "if is_tensor x then PyTensor (Stack (map the_tensor (x # xs))) else PyList (x # xs)"
  have it: "py_iter ?r = Inr (x # xs)"
    using st map_PyTensor_the_tensor [of "x # xs"] by (simp add: stackable_def)
  have "PopulationBased_initialize self start_at w = PopulationBased_set_pop self ?r w'"
    unfolding PopulationBased_initialize_def
    by (rule initialize_with_forward [OF sd ini assms(5) c st])
  also note PopulationBased_set_pop_members [OF it]
  finally show ?thesis
    using it c len py_iter_len [OF it] by (auto simp: Population_def)
qed

theorem initialize_population_size_witness:
  "PopulationBased_initialize (scenario_search 5) (Some two_seeds) scenario_world =
     Return ((scenario_search 5)
       \<lparr>pop := Some \<lparr>pop_class = PopulationClass,
                     pop_repr = PyTensor (Stack [vec [9], vec [8], vec [1], vec [2], vec [3]]),
                     pop_fit = Some [9, 8, 1, 2, 3],
                     pop_valid = Some [True, True, True, True, True]\<rparr>,
        best_sol := Some \<lparr>sol_repr = PyTensor (vec [1]), fit = Some 1, valid = Some True\<rparr>\<rparr>)
       scenario_world
   \<and> py_iter (PyTensor (Stack [vec [9], vec [8], vec [1], vec [2], vec [3]]))
       = Inr ([PyTensor (vec [9]), PyTensor (vec [8])]
              @ [PyTensor (vec [1]), PyTensor (vec [2]), PyTensor (vec [3])])
   \<and> py_len (PyTensor (Stack [vec [9], vec [8], vec [1], vec [2], vec [3]])) = Inr 5"
proof -
  let ?seeds = "[PyTensor (vec [9]), PyTensor (vec [8])]"
  let ?drawn = "[PyTensor (vec [1]), PyTensor (vec [2]), PyTensor (vec [3])]"
  have "\<exists>self' P. PopulationBased_initialize (scenario_search 5) (Some two_seeds) scenario_world
           = Return self' scenario_world \<and>
           pop self' = Some P \<and> py_iter (pop_repr P) = Inr (?seeds @ ?drawn) \<and>
           py_len (pop_repr P) = Inr (nat (pop_size (scenario_search 5)))"
    by (rule initialize_population_size [where batch = "PyList ?drawn"])
       (simp_all add: scenario_search_eq two_seeds_def cyclic_initializer_def upt_3
          stackable_def vec_def)
  then show ?thesis
    unfolding scenario_5_seeded_run by (auto simp: scenario_search_eq)
qed

theorem initialize_population_size_counterexample:
  "0 \<le> pop_size (scenario_search 0)
   \<and> initializer (scenario_search 0)
        \<lparr>kw_sspace = sspace (pi (scenario_search 0)), kw_device = None,
         kw_n_sols = Some (pop_size (scenario_search 0) - 0)\<rparr> scenario_world
       = (PyList [], scenario_world)
   \<and> PopulationBased_initialize (scenario_search 0) None scenario_world
       = Raise IndexError (scenario_search 0) scenario_world"
  using scenario_0_run by (simp add: scenario_search_eq cyclic_initializer_def)

text \<open>
  C9, as amended. The core calls the initializer with keyword arguments only. The single draw
  of \<^verbatim>\<open>RandomSearch._get_random_sol\<close> passes the solution-space descriptor and the
  processing device, and no count. The batched draw of \<^verbatim>\<open>PopulationBased._initialize\<close>
  passes the solution-space descriptor and the requested count, \<^verbatim>\<open>pop_size\<close> minus the
  number of seeds, and does not pass the device. Each method consults the initializer
  at that one argument record only: replacing the initializer by any other that returns
  the same there changes nothing but the stored operator.
\<close>

theorem initializer_keyword_arguments:
  "single_kwargs self =
      \<lparr>kw_sspace = sspace (pi self), kw_device = Some (device self), kw_n_sols = None\<rparr>
   \<and> (ini (single_kwargs self) w = initializer self (single_kwargs self) w \<longrightarrow>
        get_random_sol (self\<lparr>initializer := ini\<rparr>) w = get_random_sol self w)
   \<and> batch_kwargs pb start_at =
      \<lparr>kw_sspace = sspace (pi pb), kw_device = None,
       kw_n_sols = Some (pop_size pb -
         (case start_at of None \<Rightarrow> 0
          | Some sa \<Rightarrow> (case py_len sa of Inl e \<Rightarrow> 0 | Inr k \<Rightarrow> int k)))\<rparr>
   \<and> (ini' (batch_kwargs pb start_at) v = initializer pb (batch_kwargs pb start_at) v \<longrightarrow>
        PopulationBased_initialize (pb\<lparr>initializer := ini'\<rparr>) start_at v
          = map_outcome (\<lambda>s. s\<lparr>initializer := ini'\<rparr>) (PopulationBased_initialize pb start_at v))"
proof (intro conjI impI)
  show "single_kwargs self =
      \<lparr>kw_sspace = sspace (pi self), kw_device = Some (device self), kw_n_sols = None\<rparr>"
    by (simp add: single_kwargs_def)
  show "batch_kwargs pb start_at =
      \<lparr>kw_sspace = sspace (pi pb), kw_device = None,
       kw_n_sols = Some (pop_size pb -
         (case start_at of None \<Rightarrow> 0
          | Some sa \<Rightarrow> (case py_len sa of Inl e \<Rightarrow> 0 | Inr k \<Rightarrow> int k)))\<rparr>"
    by (simp add: batch_kwargs_def)
next
  assume "ini (single_kwargs self) w = initializer self (single_kwargs self) w"
  then show "get_random_sol (self\<lparr>initializer := ini\<rparr>) w = get_random_sol self w"
    by (simp add: get_random_sol_def single_kwargs_def)
next
  assume "ini' (batch_kwargs pb start_at) v = initializer pb (batch_kwargs pb start_at) v"
  then show "PopulationBased_initialize (pb\<lparr>initializer := ini'\<rparr>) start_at v
          = map_outcome (\<lambda>s. s\<lparr>initializer := ini'\<rparr>) (PopulationBased_initialize pb start_at v)"
    unfolding PopulationBased_initialize_def
    by (rule initialize_with_initializer) (rule PopulationBased_set_pop_initializer)
qed

theorem initializer_keyword_arguments_witness:
  "get_random_sol (example_search\<lparr>initializer := cpu_only_initializer\<rparr>) seeded_world
     = get_random_sol example_search seeded_world
   \<and> PopulationBased_initialize (echo_search\<lparr>initializer := deviceless_initializer\<rparr>) None
        scenario_world
     = map_outcome (\<lambda>s. s\<lparr>initializer := deviceless_initializer\<rparr>)
         (PopulationBased_initialize echo_search None scenario_world)
   \<and> batch_kwargs echo_search None
     = \<lparr>kw_sspace = [(''n_dims'', 1)], kw_device = None, kw_n_sols = Some 1\<rparr>"
proof -
  have a: "cpu_only_initializer (single_kwargs example_search) seeded_world
      = initializer example_search (single_kwargs example_search) seeded_world"
    by (simp add: cpu_only_initializer_def single_kwargs_def example_search_eq)
  have b: "deviceless_initializer (batch_kwargs echo_search None) scenario_world
      = initializer echo_search (batch_kwargs echo_search None) scenario_world"
    by (simp add: deviceless_initializer_def batch_kwargs_def echo_search_eq)
  from a b initializer_keyword_arguments [where self = example_search and w = seeded_world
      and ini = cpu_only_initializer and pb = echo_search and start_at = None
      and v = scenario_world and ini' = deviceless_initializer]
  show ?thesis
    by (simp add: echo_search_eq scenario_problem_def)
qed

theorem initializer_keyword_arguments_counterexample:
  "device echo_search = ''cuda''
   \<and> fst (echo_initializer
        \<lparr>kw_sspace = sspace (pi echo_search), kw_device = Some (device echo_search),
         kw_n_sols = Some 1\<rparr> scenario_world) = PyList [PyList [PyInt 4]]
   \<and> PopulationBased_initialize echo_search None scenario_world =
     Return (echo_search
       \<lparr>pop := Some \<lparr>pop_class = PopulationClass, pop_repr = PyList [PyList [PyInt 0]],
                     pop_fit = Some [0], pop_valid = Some [True]\<rparr>,
        best_sol := Some \<lparr>sol_repr = PyList [PyInt 0], fit = Some 0, valid = Some True\<rparr>\<rparr>)
       scenario_world"
  using echo_run by (simp add: echo_search_eq echo_initializer_def)

text \<open>
  C7, as amended. The configuration is not validated. Constructing a PopulationBased or
  GeneticAlgorithm instance accepts any \<^verbatim>\<open>p_m\<close>, \<^verbatim>\<open>p_c\<close> and \<^verbatim>\<open>pop_size\<close> and stores them
  as given; construction raises only for a seed that \<^verbatim>\<open>torch.manual_seed\<close> refuses, whatever
  the other arguments. At initialization, without seeds, a batched initializer call that returns
  no representation (as for a count that is not positive) makes \<^verbatim>\<open>_initialize\<close> raise
  \<^verbatim>\<open>IndexError\<close>; probabilities outside the unit interval and a \<^verbatim>\<open>start_at\<close> longer than
  \<^verbatim>\<open>pop_size\<close> pass unnoticed, as the instance built with \<^verbatim>\<open>p_m = 2\<close>, \<^verbatim>\<open>p_c = -1\<close>,
  \<^verbatim>\<open>pop_size = -3\<close> and initialised with two seeds shows.
\<close>

theorem configuration_not_validated:
  "GeneticAlgorithm_init p ini sel mut cross pm pc n elit repro sd dev w =
     (if torch_seed_ok sd
      then Inr (\<lparr>pi = p, initializer = ini, device = dev, best_sol = None, seed = sd,
                 mutator = mut, pop_size = n, pop = None, selector = sel, p_m = pm,
                 crossover = cross, p_c = pc, elitism = elit, reproduction = repro\<rparr>,
                \<lparr>random_state = Rng \<bar>sd\<bar> 0,
                 torch_state = Rng (if sd < 0 then 2 ^ 64 - 1 + sd else sd) 0,
                 ambient = ambient w\<rparr>)
      else Inl RuntimeError)
   \<and> PopulationBased_init p ini mut n sd dev w =
     (if torch_seed_ok sd
      then Inr (\<lparr>pi = p, initializer = ini, device = dev, best_sol = None, seed = sd,
                 mutator = mut, pop_size = n, pop = None\<rparr>,
                \<lparr>random_state = Rng \<bar>sd\<bar> 0,
                 torch_state = Rng (if sd < 0 then 2 ^ 64 - 1 + sd else sd) 0,
                 ambient = ambient w\<rparr>)
      else Inl RuntimeError)
   \<and> (py_iter (fst (initializer pb (batch_kwargs pb None) v)) = Inr [] \<longrightarrow>
        PopulationBased_initialize pb None v
          = Raise IndexError pb (snd (initializer pb (batch_kwargs pb None) v)))
   \<and> (py_iter (fst (initializer ga (batch_kwargs ga None) u)) = Inr [] \<longrightarrow>
        GeneticAlgorithm_initialize ga None u
          = Raise IndexError ga (snd (initializer ga (batch_kwargs ga None) u)))"
proof (intro conjI impI)
  show "GeneticAlgorithm_init p ini sel mut cross pm pc n elit repro sd dev w =
     (if torch_seed_ok sd
      then Inr (\<lparr>pi = p, initializer = ini, device = dev, best_sol = None, seed = sd,
                 mutator = mut, pop_size = n, pop = None, selector = sel, p_m = pm,
                 crossover = cross, p_c = pc, elitism = elit, reproduction = repro\<rparr>,
                \<lparr>random_state = Rng \<bar>sd\<bar> 0,
                 torch_state = Rng (if sd < 0 then 2 ^ 64 - 1 + sd else sd) 0,
                 ambient = ambient w\<rparr>)
      else Inl RuntimeError)"
    by (rule GeneticAlgorithm_init_eq)
  show "PopulationBased_init p ini mut n sd dev w =
     (if torch_seed_ok sd
      then Inr (\<lparr>pi = p, initializer = ini, device = dev, best_sol = None, seed = sd,
                 mutator = mut, pop_size = n, pop = None\<rparr>,
                \<lparr>random_state = Rng \<bar>sd\<bar> 0,
                 torch_state = Rng (if sd < 0 then 2 ^ 64 - 1 + sd else sd) 0,
                 ambient = ambient w\<rparr>)
      else Inl RuntimeError)"
    by (rule PopulationBased_init_eq)
next
  assume "py_iter (fst (initializer pb (batch_kwargs pb None) v)) = Inr []"
  then show "PopulationBased_initialize pb None v
          = Raise IndexError pb (snd (initializer pb (batch_kwargs pb None) v))"
    by (auto simp: PopulationBased_initialize_def initialize_with_def seeded_def batch_kwargs_def
        split: prod.splits)
next
  assume "py_iter (fst (initializer ga (batch_kwargs ga None) u)) = Inr []"
  then show "GeneticAlgorithm_initialize ga None u
          = Raise IndexError ga (snd (initializer ga (batch_kwargs ga None) u))"
    by (auto simp: GeneticAlgorithm_initialize_def initialize_with_def seeded_def batch_kwargs_def
        split: prod.splits)
qed

theorem configuration_not_validated_witness:
  "py_iter (fst (initializer (scenario_search 0) (batch_kwargs (scenario_search 0) None)
       scenario_world)) = Inr []
   \<and> PopulationBased_initialize (scenario_search 0) None scenario_world
       = Raise IndexError (scenario_search 0) scenario_world
   \<and> py_iter (fst (initializer (genetic_search 2 (- 1) (- 3))
        (batch_kwargs (genetic_search 2 (- 1) (- 3)) None) scenario_world)) = Inr []
   \<and> GeneticAlgorithm_initialize (genetic_search 2 (- 1) (- 3)) None scenario_world
       = Raise IndexError (genetic_search 2 (- 1) (- 3)) scenario_world"
proof -
  have a: "py_iter (fst (initializer (scenario_search 0) (batch_kwargs (scenario_search 0) None)
       scenario_world)) = Inr []"
    by (simp add: scenario_search_eq batch_kwargs_def cyclic_initializer_def)
  have b: "py_iter (fst (initializer (genetic_search 2 (- 1) (- 3))
        (batch_kwargs (genetic_search 2 (- 1) (- 3)) None) scenario_world)) = Inr []"
    by (simp add: genetic_search_eq batch_kwargs_def tree_initializer_def)
  from a b configuration_not_validated [where pb = "scenario_search 0" and v = scenario_world
      and ga = "genetic_search 2 (- 1) (- 3)" and u = scenario_world]
  show ?thesis
    by (simp add: scenario_search_eq genetic_search_eq batch_kwargs_def cyclic_initializer_def
        tree_initializer_def)
qed

theorem configuration_not_validated_counterexample:
  "GeneticAlgorithm_init scenario_problem tree_initializer no_selector identity_mutator
      copy_crossover 2 (- 1) (- 3) True False 0 ''cpu'' fresh_world
     = Inr (genetic_search 2 (- 1) (- 3), scenario_world)
   \<and> p_m (genetic_search 2 (- 1) (- 3)) = 2
   \<and> p_c (genetic_search 2 (- 1) (- 3)) = - 1
   \<and> pop_size (genetic_search 2 (- 1) (- 3)) = - 3
   \<and> py_len tree_seeds = Inr 2
   \<and> GeneticAlgorithm_initialize (genetic_search 2 (- 1) (- 3)) (Some tree_seeds) scenario_world =
     Return ((genetic_search 2 (- 1) (- 3))
       \<lparr>pop := Some \<lparr>pop_class = PopulationTreeClass,
                     pop_repr = PyList [PyList [PyInt 7], PyList [PyInt 5]],
                     pop_fit = Some [7, 5], pop_valid = Some [True, True]\<rparr>,
        best_sol := Some \<lparr>sol_repr = PyList [PyInt 5], fit = Some 5, valid = Some True\<rparr>\<rparr>)
       scenario_world"
proof -
  have "GeneticAlgorithm_init scenario_problem tree_initializer no_selector identity_mutator
      copy_crossover 2 (- 1) (- 3) True False 0 ''cpu'' fresh_world
     = Inr (genetic_search 2 (- 1) (- 3), scenario_world)"
    by (simp add: genetic_search_eq scenario_world_def GeneticAlgorithm_init_eq fresh_world_def)
  with misconfigured_run show ?thesis
    by (simp add: genetic_search_eq tree_seeds_def)
qed




text \<open>
  C4. With \<^verbatim>\<open>elitism = true\<close>, a generation step carries the representation of the current
  \<^verbatim>\<open>best_sol\<close> unchanged into the new population, where it occupies one slot, and the
  fitness of \<^verbatim>\<open>best_sol\<close> after the step is no greater than before when the problem
  minimises and no smaller when it maximises. The \<^verbatim>\<open>best_sol\<close> before the step carries
  the fitness the problem instance gives its representation, as it does after
  \<^verbatim>\<open>_initialize\<close> and, by this theorem, after every step; so the fitness is monotone
  across every pair of consecutive generations.
\<close>

theorem elitism_monotone:
  assumes "elitism self" and "best_sol self = Some b"
    and "fit b = Some (fitness (pi self) (sol_repr b))"
    and "GeneticAlgorithm_step breed self w = Return self' w'"
  shows "\<exists>b' f f' P members.
           best_sol self' = Some b' \<and> fit b = Some f \<and> fit b' = Some f' \<and>
           (if min_flag (pi self) then f' \<le> f else f \<le> f') \<and>
           pop self' = Some P \<and> py_iter (pop_repr P) = Inr members \<and>
           sol_repr b \<in> set members \<and>
           elitism self' \<and> pi self' = pi self \<and> fit b' = Some (fitness (pi self') (sol_repr b'))"
proof -
  let ?offs = "fst (breed self (pop_size self - 1) w)"
  let ?b' = "best_scored (pi self) (sol_repr b) ?offs"
  have best: "is_best_of (pi self) (sol_repr b # ?offs) ?b'"
    by (rule best_scored_is_best)
  from is_best_of_member [OF best, of "sol_repr b"]
  have ord: "if min_flag (pi self)
      then fitness (pi self) (sol_repr ?b') \<le> fitness (pi self) (sol_repr b)
      else fitness (pi self) (sol_repr b) \<le> fitness (pi self) (sol_repr ?b')"
    by simp
  have fb: "fit ?b' = Some (fitness (pi self) (sol_repr ?b'))"
    using best by (simp add: is_best_of_def)
  from assms(4) have s': "self' = self\<lparr>pop := Some ((PopulationTree (PyList (sol_repr b # ?offs)))
                 \<lparr>pop_fit := Some (map (fitness (pi self)) (sol_repr b # ?offs)),
                  pop_valid := Some (map (feasible (pi self)) (sol_repr b # ?offs))\<rparr>),
                 best_sol := Some ?b'\<rparr>"
    unfolding elitist_step [OF assms(1,2)] by simp
  show ?thesis
    using ord fb assms(1,3)
    by (intro exI [of _ ?b'] exI [of _ "fitness (pi self) (sol_repr b)"]
          exI [of _ "fitness (pi self) (sol_repr ?b')"]
          exI [of _ "(PopulationTree (PyList (sol_repr b # ?offs)))
                 \<lparr>pop_fit := Some (map (fitness (pi self)) (sol_repr b # ?offs)),
                  pop_valid := Some (map (feasible (pi self)) (sol_repr b # ?offs))\<rparr>"]
          exI [of _ "sol_repr b # ?offs"])
       (simp add: s' PopulationTree_def)
qed

theorem elitism_monotone_witness:
  "GeneticAlgorithm_step worse_breeding evolved_search scenario_world =
     Return (evolved_search
       \<lparr>pop := Some \<lparr>pop_class = PopulationTreeClass,
                     pop_repr = PyList [PyList [PyInt 10], PyList [PyInt 50], PyList [PyInt 50]],
                     pop_fit = Some [10, 50, 50], pop_valid = Some [True, True, True]\<rparr>,
        best_sol := Some \<lparr>sol_repr = PyList [PyInt 10], fit = Some 10, valid = Some True\<rparr>\<rparr>)
       scenario_world
   \<and> best_sol evolved_search
       = Some \<lparr>sol_repr = PyList [PyInt 10], fit = Some 10, valid = Some True\<rparr>
   \<and> (\<exists>f'. fit \<lparr>sol_repr = PyList [PyInt 10], fit = Some 10, valid = Some True\<rparr> = Some f'
          \<and> f' \<le> 10)"
proof -
  let ?b = "\<lparr>sol_repr = PyList [PyInt 10], fit = Some 10, valid = Some True\<rparr>"
  let ?s = "evolved_search
       \<lparr>pop := Some \<lparr>pop_class = PopulationTreeClass,
                     pop_repr = PyList [PyList [PyInt 10], PyList [PyInt 50], PyList [PyInt 50]],
                     pop_fit = Some [10, 50, 50], pop_valid = Some [True, True, True]\<rparr>,
        best_sol := Some ?b\<rparr>"
  have e: "elitism evolved_search" and b: "best_sol evolved_search = Some ?b"
    and f: "fit ?b = Some (fitness (pi evolved_search) (sol_repr ?b))"
    and m: "min_flag (pi evolved_search)"
    by (simp_all add: evolved_search_state genetic_search_eq scenario_problem_def)
  from elitism_monotone [OF e b f evolved_step] m
  obtain b' f' where "best_sol ?s = Some b'" "fit b' = Some f'" "f' \<le> 10"
    by auto
  then have "\<exists>f'. fit ?b = Some f' \<and> f' \<le> 10" by simp
  with evolved_step b show ?thesis by blast
qed

text \<open>
  C2. The property is that a supplied \<^verbatim>\<open>start_at\<close> is wrapped, evaluated and installed as
  \<^verbatim>\<open>best_sol\<close> unconditionally. \<^verbatim>\<open>RandomSearch._initialize\<close> tests \<^verbatim>\<open>if start_at:\<close>, the
  truth value of the representation, where \<^verbatim>\<open>PopulationBased._initialize\<close> tests
  \<^verbatim>\<open>start_at is not None\<close>. Evaluated on three supplied starting points of a problem
  where every point is feasible: the one-entry tensor \<^verbatim>\<open>tensor([0])\<close> is false, so it is
  discarded and a random draw is installed; the tensor \<^verbatim>\<open>tensor([5, 6])\<close> has no truth
  value, so the call raises; the tensor \<^verbatim>\<open>tensor([3])\<close> is true and is installed.
\<close>

theorem start_at_truth_test:
  "feasible (pi scenario_random_search) (PyTensor (vec [0]))
   \<and> RandomSearch_initialize scenario_random_search (Some (PyTensor (vec [0]))) scenario_world
     = Some (Return
         (scenario_random_search\<lparr>best_sol :=
            Some \<lparr>sol_repr = PyTensor (vec [1]), fit = Some 1, valid = Some True\<rparr>\<rparr>)
         scenario_world)
   \<and> RandomSearch_initialize scenario_random_search (Some (PyTensor (vec [5, 6]))) scenario_world
     = Some (Raise RuntimeError scenario_random_search scenario_world)
   \<and> RandomSearch_initialize scenario_random_search (Some (PyTensor (vec [3]))) scenario_world
     = Some (Return
         (scenario_random_search\<lparr>best_sol :=
            Some \<lparr>sol_repr = PyTensor (vec [3]), fit = Some 3, valid = Some True\<rparr>\<rparr>)
         scenario_world)"
proof -
  have "feasible (pi scenario_random_search) (PyTensor (vec [0]))"
    and "evaluate_sol (pi scenario_random_search) (Solution (PyTensor (vec [3])))
      = \<lparr>sol_repr = PyTensor (vec [3]), fit = Some 3, valid = Some True\<rparr>"
    by (simp_all add: scenario_random_search_eq scenario_problem_def evaluate_sol_def
        Solution_def vec_def)
  moreover have "py_bool (PyTensor (vec [0])) = Inr False"
    and "py_bool (PyTensor (vec [5, 6])) = Inl RuntimeError"
    and "py_bool (PyTensor (vec [3])) = Inr True"
    by (simp_all add: vec_def)
  ultimately show ?thesis
    by (simp add: RandomSearch_initialize_def scenario_random_run)
qed

end
